theory Spec2Isabelle
  imports Complex_Main
begin

section \<open>An endless runner and its two game loops\<close>

text \<open>
  The repository holds the per-frame update of a three-lane endless runner twice: in the
  monolithic component \<^verbatim>\<open>components/game.tsx\<close>, and in the hook \<^verbatim>\<open>useGameLogic\<close>
  of the logic module, which works on the scene objects of the engine module. Both are
  modelled here, function by function, as state transformers. What a frame takes from
  outside (the random draws, the clock, the player state handed to the logic module) is
  an argument of the frame. Scheduling by \<^verbatim>\<open>requestAnimationFrame\<close>, rendering, materials
  and the disposal of meshes are not modelled; a React state variable is read as the value
  it has when the frame runs.
\<close>

section \<open>Scene objects\<close>

text \<open>
  The game keeps its simulation state in the meshes of the 3D scene. A mesh is modelled by
  the properties the game code reads or writes: its position, its scaling and the
  \<^verbatim>\<open>metadata.spawnTime\<close> stamp of an obstacle (absent metadata and a \<^verbatim>\<open>null\<close>
  stamp are both \<open>None\<close>). JavaScript numbers are modelled as exact reals; rounding of
  IEEE doubles is not part of the model.
\<close>

record vec3 =
  vx :: real
  vy :: real
  vz :: real

record mesh =
  position :: vec3
  scaling :: vec3
  spawnTime :: "int option"

definition Vector3 :: "real \<Rightarrow> real \<Rightarrow> real \<Rightarrow> vec3" where
  "Vector3 a b c = \<lparr>vx = a, vy = b, vz = c\<rparr>"

definition moveZ :: "real \<Rightarrow> mesh \<Rightarrow> mesh" where
  \<comment> \<open>\<^verbatim>\<open>m.position.z += d\<close>\<close>
  "moveZ d m = m\<lparr>position := (position m)\<lparr>vz := vz (position m) + d\<rparr>\<rparr>"

definition splice1 :: "nat \<Rightarrow> 'a list \<Rightarrow> 'a list" where
  \<comment> \<open>\<^verbatim>\<open>xs.splice(index, 1)\<close>: the array without the element at \<open>index\<close>\<close>
  "splice1 index xs = take index xs @ drop (Suc index) xs"

text \<open>
  \<^verbatim>\<open>Array.prototype.forEach\<close> fixes the number of indices to visit when it starts and
  calls the callback at an index only if the array still has that index. The callbacks of
  the game splice the array they iterate over, so the loop is modelled over the indices:
  \<open>n\<close> indices remain, \<open>k\<close> is the next one, \<open>len\<close> reads the current length of the array
  out of the state.
\<close>

fun forEach :: "('s \<Rightarrow> nat) \<Rightarrow> (nat \<Rightarrow> 's \<Rightarrow> 's) \<Rightarrow> nat \<Rightarrow> nat \<Rightarrow> 's \<Rightarrow> 's" where
  "forEach len f 0 k s = s"
| "forEach len f (Suc n) k s = forEach len f n (Suc k) (if k < len s then f k s else s)"

definition groundStep :: "real \<Rightarrow> mesh \<Rightarrow> mesh" where
  \<comment> \<open>the callback of the ground loop, the same in both variants\<close>
  "groundStep speed ground =
     (let ground1 = moveZ (- speed) ground
      in if vz (position ground1) < -20 then moveZ 200 ground1 else ground1)"

section \<open>The monolithic component (components/game.tsx)\<close>

record GameState =
  isPlaying :: bool
  isGameOver :: bool
  score :: nat
  speed :: real

text \<open>
  The refs and the React state of the component. \<open>sceneRef\<close> says whether the scene has
  been created; \<open>playerRef\<close> is the player mesh, if it has been created.
\<close>

record game =
  sceneRef :: bool
  playerRef :: "mesh option"
  obstaclesRef :: "mesh list"
  groundRef :: "mesh list"
  gameState :: GameState
  playerPosition :: int
  isJumping :: bool
  speedRef :: real
  scoreRef :: nat
  isPlayingRef :: bool

text \<open>What a frame reads from outside: two draws of \<^verbatim>\<open>Math.random()\<close> and the clock.\<close>

record frame =
  randomSpawn :: real
  randomLane :: real
  now :: int

definition lanes :: "real list" where
  "lanes = [-2, 0, 2]"

definition createObstacle :: "frame \<Rightarrow> real \<Rightarrow> game \<Rightarrow> game" where
  \<comment> \<open>\<^verbatim>\<open>Math.random()\<close> lies in [0, 1), so the lane index is 0, 1 or 2\<close>
  "createObstacle fr zPosition g =
     (if \<not> sceneRef g then g
      else let randomLane = lanes ! nat \<lfloor>randomLane fr * real (length lanes)\<rfloor>;
               obstacle = \<lparr>position = Vector3 randomLane 0.5 zPosition,
                           scaling = Vector3 0.1 0.1 0.1,
                           spawnTime = Some (now fr)\<rparr>
           in g\<lparr>obstaclesRef := obstaclesRef g @ [obstacle]\<rparr>)"

definition box :: "real \<Rightarrow> real \<Rightarrow> real \<Rightarrow> mesh" where
  \<comment> \<open>a mesh as \<^verbatim>\<open>MeshBuilder.CreateBox\<close> makes it, placed at a position\<close>
  "box a b c = \<lparr>position = Vector3 a b c, scaling = Vector3 1 1 1, spawnTime = None\<rparr>"

definition initializeScene :: game where
  \<comment> \<open>the component once its scene is set up: twenty ground segments and the player\<close>
  "initializeScene =
     \<lparr>sceneRef = True,
      playerRef = Some (box 0 0 0),
      obstaclesRef = [],
      groundRef = map (\<lambda>i. box 0 (-2) (real i * 10)) [0..<20],
      gameState = \<lparr>isPlaying = False, isGameOver = False, score = 0, speed = 0.2\<rparr>,
      playerPosition = 0,
      isJumping = False,
      speedRef = 0.2,
      scoreRef = 0,
      isPlayingRef = False\<rparr>"

definition scaleIn :: "int \<Rightarrow> mesh \<Rightarrow> mesh" where
  \<comment> \<open>the spawn animation; a stamp of 0 is falsy, like a missing one\<close>
  "scaleIn t obstacle =
     (case spawnTime obstacle of
        None \<Rightarrow> obstacle
      | Some spawned \<Rightarrow>
          if spawned = 0 then obstacle
          else let timeSinceSpawn = t - spawned;
                   scaleProgress = min (real_of_int timeSinceSpawn / 500) 1;
                   easeScale = 1 - (1 - scaleProgress) ^ 3
               in obstacle\<lparr>scaling := Vector3 easeScale easeScale easeScale,
                            spawnTime := (if scaleProgress \<ge> 1 then None else Some spawned)\<rparr>)"

definition collides :: "vec3 \<Rightarrow> vec3 \<Rightarrow> bool" where
  "collides playerPos obstaclePos \<longleftrightarrow>
     \<bar>vx playerPos - vx obstaclePos\<bar> < 1.5 \<and>
     \<bar>vz playerPos - vz obstaclePos\<bar> < 1.5 \<and>
     vy playerPos < 2"

definition obstacleStep :: "int \<Rightarrow> vec3 \<Rightarrow> nat \<Rightarrow> game \<Rightarrow> game" where
  \<comment> \<open>the callback of the obstacle loop; its \<^verbatim>\<open>return\<close> leaves the callback only\<close>
  "obstacleStep t playerPos index g =
     (let obstacle = scaleIn t (moveZ (- speedRef g) (obstaclesRef g ! index));
          g1 = g\<lparr>obstaclesRef := (obstaclesRef g)[index := obstacle]\<rparr>
      in if collides playerPos (position obstacle)
         then g1\<lparr>gameState := (gameState g1)\<lparr>isPlaying := False, isGameOver := True\<rparr>,
                 isPlayingRef := False\<rparr>
         else if vz (position obstacle) < -20
         then g1\<lparr>obstaclesRef := splice1 index (obstaclesRef g1),
                 scoreRef := scoreRef g1 + 10,
                 gameState := (gameState g1)\<lparr>score := scoreRef g1 + 10\<rparr>\<rparr>
         else g1)"

definition movePlayer :: "int \<Rightarrow> bool \<Rightarrow> mesh \<Rightarrow> mesh" where
  \<comment> \<open>lane smoothing and the jump or fall of one frame\<close>
  "movePlayer lane jumping player =
     (let targetX = real_of_int lane * 2;
          pos = position player;
          x1 = vx pos + (targetX - vx pos) * 0.1;
          y1 = (if jumping then max 0 (vy pos + 0.3) else max 0 (vy pos - 0.2))
      in player\<lparr>position := pos\<lparr>vx := x1, vy := y1\<rparr>\<rparr>)"

definition gameLoop :: "frame \<Rightarrow> game \<Rightarrow> game" where
  "gameLoop fr g =
     (case playerRef g of
        None \<Rightarrow> g
      | Some player \<Rightarrow>
          if \<not> isPlayingRef g \<or> \<not> sceneRef g then g
          else
            let g1 = g\<lparr>groundRef := map (groundStep (speedRef g)) (groundRef g)\<rparr>;
                g2 = forEach (\<lambda>s. length (obstaclesRef s)) (obstacleStep (now fr) (position player))
                       (length (obstaclesRef g1)) 0 g1;
                g3 = (if randomSpawn fr < 0.02 then createObstacle fr 100 g2 else g2);
                player1 = movePlayer (playerPosition g) (isJumping g) player;
                g4 = g3\<lparr>playerRef := Some player1,
                        isJumping := (if isJumping g \<and> vy (position player1) \<ge> 4 then False
                                      else isJumping g)\<rparr>;
                speed1 = min (speedRef g4 + 0.0001) 0.5
            in g4\<lparr>speedRef := speed1, gameState := (gameState g4)\<lparr>speed := speed1\<rparr>\<rparr>)"

definition startGame :: "game \<Rightarrow> game" where
  "startGame g =
     g\<lparr>speedRef := 0.2,
       scoreRef := 0,
       isPlayingRef := True,
       gameState := \<lparr>isPlaying = True, isGameOver = False, score = 0, speed = 0.2\<rparr>,
       playerPosition := 0,
       isJumping := False,
       obstaclesRef := [],
       playerRef := map_option (\<lambda>player. player\<lparr>position := Vector3 0 0 0\<rparr>) (playerRef g)\<rparr>"

definition resetGame :: "game \<Rightarrow> game" where
  "resetGame g = g\<lparr>gameState := \<lparr>isPlaying = False, isGameOver = False, score = 0, speed = 0.2\<rparr>\<rparr>"

fun frames :: "frame list \<Rightarrow> game \<Rightarrow> game" where
  "frames [] g = g"
| "frames (fr # frs) g = frames frs (gameLoop fr g)"

section \<open>The logic module (useGameLogic)\<close>

text \<open>
  The constants of \<^verbatim>\<open>PHYSICS_CONFIG\<close> and \<^verbatim>\<open>GAME_RULES\<close> that the module reads.
\<close>

definition baseSpeed :: real where "baseSpeed = 0.2"
definition maxSpeed :: real where "maxSpeed = 0.5"
definition speedIncrease :: real where "speedIncrease = 0.0001"
definition jumpSpeed :: real where "jumpSpeed = 0.3"
definition fallSpeed :: real where "fallSpeed = 0.2"
definition laneChangeSpeed :: real where "laneChangeSpeed = 0.1"
definition collisionDistance :: real where "collisionDistance = 1.5"
definition pointsPerObstacle :: nat where "pointsPerObstacle = 10"
definition perfectRunBonus :: nat where "perfectRunBonus = 50"
definition speedIncreaseRate :: real where "speedIncreaseRate = speedIncrease"
definition tolerance :: real where "tolerance = collisionDistance"
definition jumpSafeHeight :: real where "jumpSafeHeight = 2"

record PlayerState =
  lane :: int \<comment> \<open>the field \<^verbatim>\<open>position\<close>: -1, 0 or 1\<close>
  jumping :: bool \<comment> \<open>the field \<^verbatim>\<open>isJumping\<close>\<close>
  jumpHeight :: real

datatype callback = OnGameOver | OnScoreUpdate nat real

text \<open>
  The refs of the hook, the objects behind the arguments of its game loop (player mesh,
  obstacle array, ground array), and the calls made to the two callbacks, oldest first.
  The two arrays always exist, so of the guards of the loop only the one on the player
  mesh can fail.
  The fields of the refs carry the prefix \<open>logic\<close>, the functions the prefix \<open>logic_\<close>,
  where the monolithic component has the same name.
\<close>

record logic =
  logicSpeedRef :: real
  logicScoreRef :: nat
  logicIsPlayingRef :: bool
  perfectRunRef :: nat
  player :: "mesh option"
  obstacles :: "mesh list"
  ground :: "mesh list"
  calls :: "callback list"

definition moveWorld :: "logic \<Rightarrow> logic" where
  "moveWorld l =
     l\<lparr>ground := map (groundStep (logicSpeedRef l)) (ground l),
       obstacles := map (moveZ (- logicSpeedRef l)) (obstacles l)\<rparr>"

definition updatePlayerMovement :: "PlayerState \<Rightarrow> mesh \<Rightarrow> mesh" where
  "updatePlayerMovement playerState p =
     (let targetX = real_of_int (lane playerState) * 2;
          pos = position p;
          x1 = vx pos + (targetX - vx pos) * laneChangeSpeed;
          y1 = (if jumping playerState then max 0 (vy pos + jumpSpeed)
                else max 0 (vy pos - fallSpeed))
      in p\<lparr>position := pos\<lparr>vx := x1, vy := y1\<rparr>\<rparr>)"

definition checkCollisions :: "mesh \<Rightarrow> mesh list \<Rightarrow> bool" where
  "checkCollisions p obs =
     list_ex (\<lambda>obstacle.
        let playerPos = position p; obstaclePos = position obstacle;
            sameXPosition = \<bar>vx playerPos - vx obstaclePos\<bar> < tolerance;
            sameZPosition = \<bar>vz playerPos - vz obstaclePos\<bar> < tolerance;
            notJumpingHigh = vy playerPos < jumpSafeHeight
        in sameXPosition \<and> sameZPosition \<and> notJumpingHigh) obs"

definition award :: "logic \<Rightarrow> logic" where
  \<comment> \<open>the scoring of one removal, with the call to \<^verbatim>\<open>onScoreUpdate\<close>\<close>
  "award l =
     (let l1 = l\<lparr>logicScoreRef := logicScoreRef l + pointsPerObstacle,
                 perfectRunRef := perfectRunRef l + 1\<rparr>;
          l2 = (if perfectRunRef l1 mod 10 = 0
                then l1\<lparr>logicScoreRef := logicScoreRef l1 + perfectRunBonus\<rparr> else l1)
      in l2\<lparr>calls := calls l2 @ [OnScoreUpdate (logicScoreRef l2) (logicSpeedRef l2)]\<rparr>)"

definition cleanupStep :: "nat \<Rightarrow> logic \<Rightarrow> logic" where
  \<comment> \<open>the callback of the cleanup loop\<close>
  "cleanupStep index l =
     (if vz (position (obstacles l ! index)) < -20
      then award (l\<lparr>obstacles := splice1 index (obstacles l)\<rparr>)
      else l)"

definition cleanupObstacles :: "logic \<Rightarrow> logic" where
  "cleanupObstacles l = forEach (\<lambda>s. length (obstacles s)) cleanupStep (length (obstacles l)) 0 l"

definition updateDifficulty :: "logic \<Rightarrow> logic" where
  "updateDifficulty l = l\<lparr>logicSpeedRef := min (logicSpeedRef l + speedIncreaseRate) maxSpeed\<rparr>"

definition logic_gameLoop :: "PlayerState \<Rightarrow> logic \<Rightarrow> logic" where
  "logic_gameLoop playerState l =
     (case player l of
        None \<Rightarrow> l
      | Some p \<Rightarrow>
          if \<not> logicIsPlayingRef l then l
          else
            let l1 = moveWorld l;
                p1 = updatePlayerMovement playerState p;
                l2 = l1\<lparr>player := Some p1\<rparr>
            in if checkCollisions p1 (obstacles l2)
               then l2\<lparr>logicIsPlayingRef := False, calls := calls l2 @ [OnGameOver]\<rparr>
               else updateDifficulty (cleanupObstacles l2))"

definition logic_startGame :: "logic \<Rightarrow> logic" where
  "logic_startGame l =
     l\<lparr>logicSpeedRef := baseSpeed, logicScoreRef := 0, perfectRunRef := 0,
       logicIsPlayingRef := True\<rparr>"

definition stopGame :: "logic \<Rightarrow> logic" where
  "stopGame l = l\<lparr>logicIsPlayingRef := False\<rparr>"

definition logic_resetGame :: "logic \<Rightarrow> logic" where
  "logic_resetGame l =
     (stopGame l)\<lparr>logicSpeedRef := baseSpeed, logicScoreRef := 0, perfectRunRef := 0\<rparr>"

fun logic_frames :: "PlayerState list \<Rightarrow> logic \<Rightarrow> logic" where
  "logic_frames [] l = l"
| "logic_frames (ps # pss) l = logic_frames pss (logic_gameLoop ps l)"

definition useGameLogic :: logic where
  \<comment> \<open>the hook as created, with the scene of the engine module behind its arguments\<close>
  "useGameLogic =
     \<lparr>logicSpeedRef = baseSpeed,
      logicScoreRef = 0,
      logicIsPlayingRef = False,
      perfectRunRef = 0,
      player = Some (box 0 0 0),
      obstacles = [],
      ground = map (\<lambda>i. box 0 (-2) (real i * 10)) [0..<20],
      calls = []\<rparr>"

section \<open>Auxiliary notions for the proofs\<close>

text \<open>
  \<open>tally l l'\<close>: from \<open>l\<close> to \<open>l'\<close> some number \<open>r\<close> of obstacles has gone, the perfect-run
  counter has grown by \<open>r\<close>, and the score by ten per obstacle and fifty per multiple of
  ten that the counter has passed.
\<close>

definition tally :: "logic \<Rightarrow> logic \<Rightarrow> bool" where
  "tally l l' \<longleftrightarrow>
     (\<exists>r. length (obstacles l) = length (obstacles l') + r \<and>
          perfectRunRef l' = perfectRunRef l + r \<and>
          logicScoreRef l' + 50 * (perfectRunRef l div 10) =
            logicScoreRef l + 10 * r + 50 * (perfectRunRef l' div 10))"

text \<open>
  \<open>rescrolled G G'\<close>: the segments of \<open>G'\<close> are those of \<open>G\<close>, each moved back by one
  common distance \<open>d\<close> and forward by a whole number of spans of 200.
\<close>

definition rescrolled :: "mesh list \<Rightarrow> mesh list \<Rightarrow> bool" where
  "rescrolled G G' \<longleftrightarrow>
     length G' = length G \<and>
     (\<exists>d. \<forall>i < length G. \<exists>m::int.
        vz (position (G' ! i)) = vz (position (G ! i)) - d + 200 * real_of_int m)"


section \<open>Scenes used as examples\<close>

text \<open>
  \<open>collisionScene\<close>: a run just started, the player has asked for the right lane, one
  obstacle is about to reach the player in the middle lane and another is far ahead.
  \<open>spawnFrame\<close> is a frame whose random draw spawns an obstacle in the middle lane.
  \<open>jumpScene\<close>: the logic module with the player rising through height 1.8 and an
  obstacle about to reach it.
\<close>

definition collisionScene :: game where
  "collisionScene =
     (startGame initializeScene)\<lparr>obstaclesRef := [box 0 0.5 0.2, box 2 0.5 50], playerPosition := 1\<rparr>"

definition spawnFrame :: frame where
  "spawnFrame = \<lparr>randomSpawn = 0.01, randomLane = 0.5, now = 1000\<rparr>"

definition jumpScene :: logic where
  "jumpScene =
     (logic_startGame useGameLogic)\<lparr>player := Some (box 0 1.8 0), obstacles := [box 0 0.5 0.2]\<rparr>"

section \<open>Frames at a held speed\<close>



definition logic_holdSpeed :: "real \<Rightarrow> logic \<Rightarrow> logic" where
  "logic_holdSpeed s l = l\<lparr>logicSpeedRef := s\<rparr>"

fun logic_framesAtSpeed :: "real \<Rightarrow> PlayerState list \<Rightarrow> logic \<Rightarrow> logic" where
  "logic_framesAtSpeed s [] l = l"
| "logic_framesAtSpeed s (ps # pss) l =
     logic_framesAtSpeed s pss (logic_gameLoop ps (logic_holdSpeed s l))"

text \<open>
  More scenes: two and three obstacles behind the rear threshold, a frame that spawns
  nothing, a run at full speed with one obstacle just spawned in the right lane, and a
  player state that asks for the middle lane and does not jump.
\<close>

definition pairLogic :: logic where
  "pairLogic =
     (logic_startGame useGameLogic)\<lparr>obstacles := [box (-2) 0.5 (-20.5), box 0 0.5 (-20.3)]\<rparr>"

definition pairScene :: game where
  "pairScene =
     (startGame initializeScene)\<lparr>obstaclesRef := [box (-2) 0.5 (-20.5), box 0 0.5 (-20.3)]\<rparr>"

definition tripleScene :: logic where
  "tripleScene =
     (logic_startGame useGameLogic)
       \<lparr>obstacles := [box (-2) 0.5 (-20.5), box 0 0.5 (-20.3), box 2 0.5 (-20.1)]\<rparr>"

definition quietFrame :: frame where
  "quietFrame = \<lparr>randomSpawn = 0.5, randomLane = 0.9, now = 1\<rparr>"

definition cruiseScene :: game where
  "cruiseScene =
     createObstacle quietFrame 100
       ((startGame initializeScene)
          \<lparr>speedRef := 0.5, gameState := (gameState (startGame initializeScene))\<lparr>speed := 0.5\<rparr>\<rparr>)"

definition cruiseLogic :: logic where
  "cruiseLogic = (logic_startGame useGameLogic)\<lparr>obstacles := obstaclesRef cruiseScene\<rparr>"

definition stillPlayer :: PlayerState where
  "stillPlayer = \<lparr>lane = 0, jumping = False, jumpHeight = 0\<rparr>"

text \<open>
  \<open>skipScene\<close>: a run of the monolithic component in which the player, rising through
  height 1.8 on its way from the right lane to the middle lane, is at x = 1.458, while the
  first obstacle of the array is about to pass the rear threshold and the second is at the
  player, in the middle lane. \<open>laggedScene\<close>: a run at full speed with two obstacles one
  unit apart near the rear threshold. \<open>crowdedLogic\<close> and \<open>spacedLogic\<close>: the logic module
  with two obstacles near the rear threshold, 0.1 and 0.6 apart.
\<close>

definition skipScene :: game where
  "skipScene =
     (startGame initializeScene)
       \<lparr>playerRef := Some (box 1.458 1.8 0), isJumping := True,
        obstaclesRef := [box 2 0.5 (-19.9), box 0 0.5 0.05]\<rparr>"




section \<open>Collision detection\<close>

lemma position_scaleIn: "position (scaleIn t ob) = position ob"
  by (simp add: scaleIn_def Let_def split: option.split)

lemma position_moveZ: "position (moveZ d m) = (position m)\<lparr>vz := vz (position m) + d\<rparr>"
  by (simp add: moveZ_def)

lemma isPlayingRef_obstacleStep:
  "isPlayingRef (obstacleStep t pp index g) \<longleftrightarrow>
     isPlayingRef g \<and> \<not> collides pp (position (moveZ (- speedRef g) (obstaclesRef g ! index)))"
  by (simp add: obstacleStep_def Let_def position_scaleIn)

text \<open>
  The collision test. \<open>checkCollisions\<close> of the logic module reports a collision exactly
  when some obstacle of the array is closer than 1.5 to the player in x and in z while the
  player is below height 2; the callback of the monolithic loop ends the session at the
  obstacle it visits exactly under the same three conditions, on the obstacle's position
  after this frame's scroll. A player at the origin collides with an obstacle at x = 0,
  z = 0 and does not collide with one at x = 3, z = 0.
\<close>

lemma collision_declared_iff:
  "(checkCollisions p obs \<longleftrightarrow>
      (\<exists>ob \<in> set obs.
          \<bar>vx (position p) - vx (position ob)\<bar> < 1.5 \<and>
          \<bar>vz (position p) - vz (position ob)\<bar> < 1.5 \<and>
          vy (position p) < 2)) \<and>
   (index < length (obstaclesRef g) \<and> isPlayingRef g \<longrightarrow>
      (\<not> isPlayingRef (obstacleStep t pp index g) \<longleftrightarrow>
         \<bar>vx pp - vx (position (obstaclesRef g ! index))\<bar> < 1.5 \<and>
         \<bar>vz pp - (vz (position (obstaclesRef g ! index)) - speedRef g)\<bar> < 1.5 \<and>
         vy pp < 2)) \<and>
   checkCollisions \<lparr>position = Vector3 0 0 0, scaling = sc, spawnTime = st\<rparr>
      [\<lparr>position = Vector3 0 oy 0, scaling = sc', spawnTime = st'\<rparr>] \<and>
   \<not> checkCollisions \<lparr>position = Vector3 0 0 0, scaling = sc, spawnTime = st\<rparr>
      [\<lparr>position = Vector3 3 oy 0, scaling = sc', spawnTime = st'\<rparr>]"
proof (intro conjI impI)
  show "checkCollisions p obs \<longleftrightarrow>
      (\<exists>ob \<in> set obs.
          \<bar>vx (position p) - vx (position ob)\<bar> < 1.5 \<and>
          \<bar>vz (position p) - vz (position ob)\<bar> < 1.5 \<and>
          vy (position p) < 2)"
    by (simp add: checkCollisions_def list_ex_iff tolerance_def collisionDistance_def
        jumpSafeHeight_def Let_def)
next
  assume "index < length (obstaclesRef g) \<and> isPlayingRef g"
  then show "(\<not> isPlayingRef (obstacleStep t pp index g)) \<longleftrightarrow>
         \<bar>vx pp - vx (position (obstaclesRef g ! index))\<bar> < 1.5 \<and>
         \<bar>vz pp - (vz (position (obstaclesRef g ! index)) - speedRef g)\<bar> < 1.5 \<and>
         vy pp < 2"
    by (auto simp add: isPlayingRef_obstacleStep collides_def position_moveZ)
next
  show "checkCollisions \<lparr>position = Vector3 0 0 0, scaling = sc, spawnTime = st\<rparr>
      [\<lparr>position = Vector3 0 oy 0, scaling = sc', spawnTime = st'\<rparr>]"
    by (simp add: checkCollisions_def tolerance_def collisionDistance_def
        jumpSafeHeight_def Vector3_def)
next
  show "\<not> checkCollisions \<lparr>position = Vector3 0 0 0, scaling = sc, spawnTime = st\<rparr>
      [\<lparr>position = Vector3 3 oy 0, scaling = sc', spawnTime = st'\<rparr>]"
    by (simp add: checkCollisions_def tolerance_def collisionDistance_def
        jumpSafeHeight_def Vector3_def)
qed

lemma collision_declared_iff_example:
  "0 < length (obstaclesRef ((startGame initializeScene)\<lparr>obstaclesRef := [box 0 0.5 0.2]\<rparr>)) \<and>
   isPlayingRef ((startGame initializeScene)\<lparr>obstaclesRef := [box 0 0.5 0.2]\<rparr>) \<and>
   \<not> isPlayingRef (obstacleStep 0 (Vector3 0 0 0) 0
        ((startGame initializeScene)\<lparr>obstaclesRef := [box 0 0.5 0.2]\<rparr>)) \<and>
   checkCollisions (box 0 0 0) [box 2 0.5 50, box 0 0.5 0]"
  using collision_declared_iff [of "box 0 0 0" "[box 2 0.5 50, box 0 0.5 0]" 0
      "(startGame initializeScene)\<lparr>obstaclesRef := [box 0 0.5 0.2]\<rparr>" 0 "Vector3 0 0 0"]
  by (simp add: startGame_def box_def Vector3_def)

section \<open>Scoring of removals\<close>


lemma award_fields:
  "perfectRunRef (award l) = perfectRunRef l + 1"
  "logicScoreRef (award l) =
     logicScoreRef l + 10 + (if (perfectRunRef l + 1) mod 10 = 0 then 50 else 0)"
  "obstacles (award l) = obstacles l"
  "logicSpeedRef (award l) = logicSpeedRef l"
  "logicIsPlayingRef (award l) = logicIsPlayingRef l"
  "ground (award l) = ground l"
  "player (award l) = player l"
  by (simp_all add: award_def Let_def pointsPerObstacle_def perfectRunBonus_def)

lemma tally_refl: "tally l l"
  by (simp add: tally_def)

lemma tally_trans: "tally a b \<Longrightarrow> tally b c \<Longrightarrow> tally a c"
  unfolding tally_def
  apply (elim exE conjE)
  subgoal for r1 r2
    by (rule exI [of _ "r1 + r2"]) simp
  done

lemma length_splice1: "index < length xs \<Longrightarrow> length (splice1 index xs) = length xs - 1"
  by (simp add: splice1_def)

lemma tally_cleanupStep:
  assumes "index < length (obstacles l)"
  shows "tally l (cleanupStep index l)"
proof (cases "vz (position (obstacles l ! index)) < -20")
  case False
  then show ?thesis by (simp add: cleanupStep_def tally_refl)
next
  case True
  have "length (obstacles l) = length (splice1 index (obstacles l)) + 1"
    using assms by (simp add: length_splice1)
  moreover have "cleanupStep index l = award (l\<lparr>obstacles := splice1 index (obstacles l)\<rparr>)"
    using True by (simp add: cleanupStep_def)
  ultimately show ?thesis
    unfolding tally_def
    by (intro exI [of _ 1]) (simp add: award_fields div_Suc)
qed

lemma tally_forEach: "tally l (forEach (\<lambda>s. length (obstacles s)) cleanupStep n k l)"
proof (induction n arbitrary: k l)
  case 0
  show ?case by (simp add: tally_refl)
next
  case (Suc n)
  have "tally l (if k < length (obstacles l) then cleanupStep k l else l)"
    by (simp add: tally_cleanupStep tally_refl)
  moreover have "tally (if k < length (obstacles l) then cleanupStep k l else l)
      (forEach (\<lambda>s. length (obstacles s)) cleanupStep n (Suc k)
         (if k < length (obstacles l) then cleanupStep k l else l))"
    by (rule Suc.IH)
  ultimately have "tally l (forEach (\<lambda>s. length (obstacles s)) cleanupStep n (Suc k)
         (if k < length (obstacles l) then cleanupStep k l else l))"
    by (rule tally_trans)
  then show ?case by (simp del: if_split)
qed

lemma tally_cleanupObstacles: "tally l (cleanupObstacles l)"
  by (simp add: cleanupObstacles_def tally_forEach)

lemma removal_step:
  assumes "index < length (obstacles l) \<and> vz (position (obstacles l ! index)) < -20"
  shows "obstacles (cleanupStep index l) = splice1 index (obstacles l) \<and>
      perfectRunRef (cleanupStep index l) = perfectRunRef l + 1 \<and>
      logicScoreRef (cleanupStep index l) =
        (if (perfectRunRef l + 1) mod 10 = 0 then logicScoreRef l + 60 else logicScoreRef l + 10)"
  using assms by (simp add: cleanupStep_def award_fields)

lemma removal_pass:
  "let removed = length (obstacles l) - length (obstacles (cleanupObstacles l))
    in length (obstacles (cleanupObstacles l)) \<le> length (obstacles l) \<and>
       perfectRunRef (cleanupObstacles l) = perfectRunRef l + removed \<and>
       logicScoreRef (cleanupObstacles l) =
         logicScoreRef l + 10 * removed +
         50 * ((perfectRunRef l + removed) div 10 - perfectRunRef l div 10)"
proof -
  obtain r where r: "length (obstacles l) = length (obstacles (cleanupObstacles l)) + r"
      "perfectRunRef (cleanupObstacles l) = perfectRunRef l + r"
      "logicScoreRef (cleanupObstacles l) + 50 * (perfectRunRef l div 10) =
            logicScoreRef l + 10 * r + 50 * (perfectRunRef (cleanupObstacles l) div 10)"
    using tally_cleanupObstacles [of l] unfolding tally_def by blast
  have mono: "perfectRunRef l div 10 \<le> (perfectRunRef l + r) div 10"
    by (simp add: div_le_mono)
  have removed: "length (obstacles l) - length (obstacles (cleanupObstacles l)) = r"
    using r(1) by simp
  have score: "logicScoreRef (cleanupObstacles l) =
         logicScoreRef l + 10 * r + 50 * ((perfectRunRef l + r) div 10 - perfectRunRef l div 10)"
    using r(2,3) mono by (simp add: diff_mult_distrib2)
  show ?thesis
    unfolding Let_def removed using r(1,2) score by simp
qed

text \<open>
  Claim C8. In the logic module, the removal of an obstacle adds 10 to the score and 1 to
  the perfect-run counter, and 50 more when the counter becomes a multiple of 10, which
  makes 60 for that removal. Over a whole cleanup pass that removes \<open>removed\<close> obstacles the
  counter grows by \<open>removed\<close> and the score by ten times \<open>removed\<close> plus fifty for every
  multiple of ten the counter reaches.
\<close>

theorem removal_scoring:
  "(index < length (obstacles l) \<and> vz (position (obstacles l ! index)) < -20 \<longrightarrow>
      obstacles (cleanupStep index l) = splice1 index (obstacles l) \<and>
      perfectRunRef (cleanupStep index l) = perfectRunRef l + 1 \<and>
      logicScoreRef (cleanupStep index l) =
        (if (perfectRunRef l + 1) mod 10 = 0 then logicScoreRef l + 60 else logicScoreRef l + 10)) \<and>
   (let removed = length (obstacles l) - length (obstacles (cleanupObstacles l))
    in length (obstacles (cleanupObstacles l)) \<le> length (obstacles l) \<and>
       perfectRunRef (cleanupObstacles l) = perfectRunRef l + removed \<and>
       logicScoreRef (cleanupObstacles l) =
         logicScoreRef l + 10 * removed +
         50 * ((perfectRunRef l + removed) div 10 - perfectRunRef l div 10))"
  using removal_step [of index l] removal_pass [of l] by blast

theorem removal_scoring_witness:
  "0 < length (obstacles (useGameLogic\<lparr>obstacles := [box 2 0.5 (-20.1)], perfectRunRef := 9\<rparr>)) \<and>
   vz (position (obstacles (useGameLogic\<lparr>obstacles := [box 2 0.5 (-20.1)], perfectRunRef := 9\<rparr>) ! 0)) < -20 \<and>
   logicScoreRef (cleanupStep 0 (useGameLogic\<lparr>obstacles := [box 2 0.5 (-20.1)], perfectRunRef := 9\<rparr>)) = 60 \<and>
   perfectRunRef (cleanupStep 0 (useGameLogic\<lparr>obstacles := [box 2 0.5 (-20.1)], perfectRunRef := 9\<rparr>)) = 10"
  using removal_scoring [of 0 "useGameLogic\<lparr>obstacles := [box 2 0.5 (-20.1)], perfectRunRef := 9\<rparr>"]
  by (simp add: useGameLogic_def box_def Vector3_def)

section \<open>The frame of the monolithic component, field by field\<close>

lemma obstacleStep_keeps:
  "groundRef (obstacleStep t pp index g) = groundRef g"
  "speedRef (obstacleStep t pp index g) = speedRef g"
  "playerRef (obstacleStep t pp index g) = playerRef g"
  "sceneRef (obstacleStep t pp index g) = sceneRef g"
  "playerPosition (obstacleStep t pp index g) = playerPosition g"
  "isJumping (obstacleStep t pp index g) = isJumping g"
  by (simp_all add: obstacleStep_def Let_def)

lemma createObstacle_keeps:
  "groundRef (createObstacle fr zp g) = groundRef g"
  "speedRef (createObstacle fr zp g) = speedRef g"
  "playerRef (createObstacle fr zp g) = playerRef g"
  "sceneRef (createObstacle fr zp g) = sceneRef g"
  "playerPosition (createObstacle fr zp g) = playerPosition g"
  "isJumping (createObstacle fr zp g) = isJumping g"
  "isPlayingRef (createObstacle fr zp g) = isPlayingRef g"
  "scoreRef (createObstacle fr zp g) = scoreRef g"
  "gameState (createObstacle fr zp g) = gameState g"
  by (simp_all add: createObstacle_def Let_def)

lemma obstacle_loop_keeps:
  "groundRef (forEach (\<lambda>s. length (obstaclesRef s)) (obstacleStep t pp) n k g) = groundRef g"
  "speedRef (forEach (\<lambda>s. length (obstaclesRef s)) (obstacleStep t pp) n k g) = speedRef g"
  "playerRef (forEach (\<lambda>s. length (obstaclesRef s)) (obstacleStep t pp) n k g) = playerRef g"
  "sceneRef (forEach (\<lambda>s. length (obstaclesRef s)) (obstacleStep t pp) n k g) = sceneRef g"
  "playerPosition (forEach (\<lambda>s. length (obstaclesRef s)) (obstacleStep t pp) n k g) = playerPosition g"
  "isJumping (forEach (\<lambda>s. length (obstaclesRef s)) (obstacleStep t pp) n k g) = isJumping g"
  by (induction n arbitrary: k g) (simp_all add: obstacleStep_keeps)

lemma gameLoop_idle:
  "playerRef g = None \<or> \<not> isPlayingRef g \<or> \<not> sceneRef g \<Longrightarrow> gameLoop fr g = g"
  by (auto simp add: gameLoop_def split: option.split)

lemma gameLoop_running:
  assumes "playerRef g = Some p" "isPlayingRef g" "sceneRef g"
  shows "groundRef (gameLoop fr g) = map (groundStep (speedRef g)) (groundRef g)"
    and "speedRef (gameLoop fr g) = min (speedRef g + 0.0001) 0.5"
    and "playerRef (gameLoop fr g) = Some (movePlayer (playerPosition g) (isJumping g) p)"
    and "isJumping (gameLoop fr g) \<longleftrightarrow>
           isJumping g \<and> \<not> 4 \<le> vy (position (movePlayer (playerPosition g) (isJumping g) p))"
    and "sceneRef (gameLoop fr g)"
    and "playerPosition (gameLoop fr g) = playerPosition g"
  using assms
  by (auto simp add: gameLoop_def Let_def obstacle_loop_keeps createObstacle_keeps)

lemma frames_append: "frames (frs @ frs') g = frames frs' (frames frs g)"
  by (induction frs arbitrary: g) simp_all

lemma logic_frames_append: "logic_frames (ps @ ps') l = logic_frames ps' (logic_frames ps l)"
  by (induction ps arbitrary: l) simp_all

section \<open>The frame of the logic module, field by field\<close>

lemma award_keeps:
  "obstacles (award l) = obstacles l"
  "logicSpeedRef (award l) = logicSpeedRef l"
  "logicIsPlayingRef (award l) = logicIsPlayingRef l"
  "ground (award l) = ground l"
  "player (award l) = player l"
  by (simp_all add: award_def Let_def)

lemma cleanupStep_keeps:
  "logicSpeedRef (cleanupStep index l) = logicSpeedRef l"
  "logicIsPlayingRef (cleanupStep index l) = logicIsPlayingRef l"
  "ground (cleanupStep index l) = ground l"
  "player (cleanupStep index l) = player l"
  by (simp_all add: cleanupStep_def award_keeps)

lemma cleanup_loop_keeps:
  "logicSpeedRef (forEach (\<lambda>s. length (obstacles s)) cleanupStep n k l) = logicSpeedRef l"
  "logicIsPlayingRef (forEach (\<lambda>s. length (obstacles s)) cleanupStep n k l) = logicIsPlayingRef l"
  "ground (forEach (\<lambda>s. length (obstacles s)) cleanupStep n k l) = ground l"
  "player (forEach (\<lambda>s. length (obstacles s)) cleanupStep n k l) = player l"
  by (induction n arbitrary: k l) (simp_all add: cleanupStep_keeps)

lemma cleanupObstacles_keeps:
  "logicSpeedRef (cleanupObstacles l) = logicSpeedRef l"
  "logicIsPlayingRef (cleanupObstacles l) = logicIsPlayingRef l"
  "ground (cleanupObstacles l) = ground l"
  "player (cleanupObstacles l) = player l"
  by (simp_all add: cleanupObstacles_def cleanup_loop_keeps)

lemma logic_gameLoop_idle:
  "player l = None \<or> \<not> logicIsPlayingRef l \<Longrightarrow> logic_gameLoop ps l = l"
  by (auto simp add: logic_gameLoop_def split: option.split)

lemma logic_gameLoop_running:
  assumes "player l = Some p" "logicIsPlayingRef l"
  shows "ground (logic_gameLoop ps l) = map (groundStep (logicSpeedRef l)) (ground l)"
    and "player (logic_gameLoop ps l) = Some (updatePlayerMovement ps p)"
    and "logicIsPlayingRef (logic_gameLoop ps l) \<longleftrightarrow>
           \<not> checkCollisions (updatePlayerMovement ps p) (map (moveZ (- logicSpeedRef l)) (obstacles l))"
    and "logicSpeedRef (logic_gameLoop ps l) =
           (if checkCollisions (updatePlayerMovement ps p) (map (moveZ (- logicSpeedRef l)) (obstacles l))
            then logicSpeedRef l else min (logicSpeedRef l + 0.0001) 0.5)"
  using assms
  by (simp_all add: logic_gameLoop_def Let_def moveWorld_def updateDifficulty_def
      cleanupObstacles_keeps speedIncreaseRate_def speedIncrease_def maxSpeed_def)

section \<open>Ground recycling\<close>

lemma vz_groundStep:
  "vz (position (groundStep s seg)) =
     (if vz (position seg) - s < -20 then vz (position seg) - s + 200 else vz (position seg) - s)"
  by (simp add: groundStep_def Let_def moveZ_def)

lemma rescrolled_refl: "rescrolled G G"
proof -
  have "\<exists>m::int. vz (position (G ! i)) = vz (position (G ! i)) - 0 + 200 * real_of_int m" for i
    by (rule exI [of _ 0]) simp
  then show ?thesis
    unfolding rescrolled_def by blast
qed

lemma rescrolled_trans:
  assumes "rescrolled G G'" "rescrolled G' G''"
  shows "rescrolled G G''"
proof -
  from assms(1) obtain d where len: "length G' = length G"
    and d: "\<And>i. i < length G \<Longrightarrow> \<exists>m::int.
        vz (position (G' ! i)) = vz (position (G ! i)) - d + 200 * real_of_int m"
    unfolding rescrolled_def by blast
  from assms(2) obtain e where len': "length G'' = length G'"
    and e: "\<And>i. i < length G' \<Longrightarrow> \<exists>m::int.
        vz (position (G'' ! i)) = vz (position (G' ! i)) - e + 200 * real_of_int m"
    unfolding rescrolled_def by blast
  have "\<exists>m::int. vz (position (G'' ! i)) = vz (position (G ! i)) - (d + e) + 200 * real_of_int m"
    if "i < length G" for i
  proof -
    from d [OF that] obtain m :: int where
      m: "vz (position (G' ! i)) = vz (position (G ! i)) - d + 200 * real_of_int m" ..
    from e [of i] that len obtain n :: int where
      n: "vz (position (G'' ! i)) = vz (position (G' ! i)) - e + 200 * real_of_int n" by auto
    show ?thesis
      by (rule exI [of _ "m + n"]) (simp add: m n)
  qed
  then show ?thesis
    unfolding rescrolled_def using len len' by auto
qed

lemma rescrolled_step: "rescrolled G (map (groundStep s) G)"
proof -
  have "\<exists>m::int. vz (position (map (groundStep s) G ! i)) =
      vz (position (G ! i)) - s + 200 * real_of_int m" if "i < length G" for i
  proof (cases "vz (position (G ! i)) - s < -20")
    case True
    then show ?thesis using that by (intro exI [of _ 1]) (simp add: vz_groundStep)
  next
    case False
    then show ?thesis using that by (intro exI [of _ 0]) (simp add: vz_groundStep)
  qed
  then show ?thesis
    unfolding rescrolled_def by auto
qed

lemma rescrolled_gameLoop: "rescrolled (groundRef g) (groundRef (gameLoop fr g))"
proof (cases "playerRef g = None \<or> \<not> isPlayingRef g \<or> \<not> sceneRef g")
  case True
  then show ?thesis by (simp add: gameLoop_idle rescrolled_refl)
next
  case False
  then obtain p where "playerRef g = Some p" "isPlayingRef g" "sceneRef g" by auto
  then show ?thesis by (simp add: gameLoop_running(1) rescrolled_step)
qed

lemma rescrolled_frames: "rescrolled (groundRef g) (groundRef (frames frs g))"
proof (induction frs arbitrary: g)
  case Nil
  show ?case by (simp add: rescrolled_refl)
next
  case (Cons fr frs)
  show ?case
    using rescrolled_trans [OF rescrolled_gameLoop Cons.IH] by simp
qed

lemma rescrolled_logic_gameLoop: "rescrolled (ground l) (ground (logic_gameLoop ps l))"
proof (cases "player l = None \<or> \<not> logicIsPlayingRef l")
  case True
  then show ?thesis by (simp add: logic_gameLoop_idle rescrolled_refl)
next
  case False
  then obtain p where "player l = Some p" "logicIsPlayingRef l" by auto
  then show ?thesis by (simp add: logic_gameLoop_running(1) rescrolled_step)
qed

lemma rescrolled_logic_frames: "rescrolled (ground l) (ground (logic_frames pss l))"
proof (induction pss arbitrary: l)
  case Nil
  show ?case by (simp add: rescrolled_refl)
next
  case (Cons ps pss)
  show ?case
    using rescrolled_trans [OF rescrolled_logic_gameLoop Cons.IH] by simp
qed

lemma rescrolled_spacing:
  assumes "rescrolled G G'" "i < length G" "j < length G"
  shows "\<exists>k::int. vz (position (G' ! i)) - vz (position (G' ! j)) =
           vz (position (G ! i)) - vz (position (G ! j)) + 200 * real_of_int k"
proof -
  from assms(1) obtain d where
    d: "\<And>i. i < length G \<Longrightarrow> \<exists>m::int.
        vz (position (G' ! i)) = vz (position (G ! i)) - d + 200 * real_of_int m"
    unfolding rescrolled_def by blast
  from d [OF assms(2)] obtain m :: int where
    m: "vz (position (G' ! i)) = vz (position (G ! i)) - d + 200 * real_of_int m" ..
  from d [OF assms(3)] obtain n :: int where
    n: "vz (position (G' ! j)) = vz (position (G ! j)) - d + 200 * real_of_int n" ..
  show ?thesis
    by (rule exI [of _ "m - n"]) (simp add: m n)
qed

text \<open>
  Claim C9. The ground callback subtracts the speed from a segment's position and adds
  exactly 200 when the result is below -20, so a segment that the scroll has taken to -20.5
  ends the step at 179.5; a running frame applies it to every segment. Over any number of
  frames, of either variant, the difference of the positions of two segments changes by a
  whole multiple of 200 only.
\<close>

theorem ground_wrap:
  "vz (position (groundStep s seg)) =
     (if vz (position seg) - s < -20 then vz (position seg) - s + 200 else vz (position seg) - s) \<and>
   vz (position (groundStep s (box 0 (-2) (-20.5 + s)))) = 179.5 \<and>
   (playerRef g \<noteq> None \<and> isPlayingRef g \<and> sceneRef g \<longrightarrow>
      groundRef (gameLoop fr g) = map (groundStep (speedRef g)) (groundRef g)) \<and>
   (player l \<noteq> None \<and> logicIsPlayingRef l \<longrightarrow>
      ground (logic_gameLoop ps l) = map (groundStep (logicSpeedRef l)) (ground l)) \<and>
   (i < length (groundRef g) \<and> j < length (groundRef g) \<longrightarrow>
      length (groundRef (frames frs g)) = length (groundRef g) \<and>
      (\<exists>k::int. vz (position (groundRef (frames frs g) ! i)) - vz (position (groundRef (frames frs g) ! j)) =
          vz (position (groundRef g ! i)) - vz (position (groundRef g ! j)) + 200 * real_of_int k)) \<and>
   (i' < length (ground l) \<and> j' < length (ground l) \<longrightarrow>
      length (ground (logic_frames pss l)) = length (ground l) \<and>
      (\<exists>k::int. vz (position (ground (logic_frames pss l) ! i')) - vz (position (ground (logic_frames pss l) ! j')) =
          vz (position (ground l ! i')) - vz (position (ground l ! j')) + 200 * real_of_int k))"
proof -
  have a: "vz (position (groundStep s (box 0 (-2) (-20.5 + s)))) = 179.5"
    by (simp add: vz_groundStep box_def Vector3_def)
  have b: "groundRef (gameLoop fr g) = map (groundStep (speedRef g)) (groundRef g)"
    if "playerRef g \<noteq> None \<and> isPlayingRef g \<and> sceneRef g"
    using that gameLoop_running(1) [of g _ fr] by auto
  have c: "ground (logic_gameLoop ps l) = map (groundStep (logicSpeedRef l)) (ground l)"
    if "player l \<noteq> None \<and> logicIsPlayingRef l"
    using that logic_gameLoop_running(1) [of l _ ps] by auto
  have d: "length (groundRef (frames frs g)) = length (groundRef g)"
    using rescrolled_frames [of g frs] by (simp add: rescrolled_def)
  have e: "length (ground (logic_frames pss l)) = length (ground l)"
    using rescrolled_logic_frames [of l pss] by (simp add: rescrolled_def)
  show ?thesis
    using vz_groundStep [of s seg] a b c d e
      rescrolled_spacing [OF rescrolled_frames [of g frs], of i j]
      rescrolled_spacing [OF rescrolled_logic_frames [of l pss], of i' j']
    by blast
qed

section \<open>Difficulty ramp\<close>

lemma speedRef_gameLoop_bounds:
  assumes "0.2 \<le> speedRef g \<and> speedRef g \<le> 0.5"
  shows "0.2 \<le> speedRef (gameLoop fr g) \<and> speedRef (gameLoop fr g) \<le> 0.5 \<and>
         speedRef g \<le> speedRef (gameLoop fr g)"
proof (cases "playerRef g = None \<or> \<not> isPlayingRef g \<or> \<not> sceneRef g")
  case True
  then show ?thesis using assms by (simp add: gameLoop_idle)
next
  case False
  then obtain p where "playerRef g = Some p" "isPlayingRef g" "sceneRef g" by auto
  then have "speedRef (gameLoop fr g) = min (speedRef g + 0.0001) 0.5"
    by (rule gameLoop_running(2))
  then show ?thesis using assms by (simp add: min_def)
qed

lemma speedRef_gameLoop_grows:
  assumes "playerRef g \<noteq> None \<and> isPlayingRef g \<and> sceneRef g \<and> speedRef g < 0.5"
  shows "speedRef g < speedRef (gameLoop fr g)"
proof -
  from assms obtain p where "playerRef g = Some p" "isPlayingRef g" "sceneRef g" by auto
  then have "speedRef (gameLoop fr g) = min (speedRef g + 0.0001) 0.5"
    by (rule gameLoop_running(2))
  then show ?thesis using assms by (simp add: min_def)
qed

lemma speedRef_frames_bounds:
  "0.2 \<le> speedRef g \<and> speedRef g \<le> 0.5 \<Longrightarrow>
   0.2 \<le> speedRef (frames frs g) \<and> speedRef (frames frs g) \<le> 0.5 \<and>
   speedRef g \<le> speedRef (frames frs g)"
proof (induction frs arbitrary: g)
  case Nil
  then show ?case by simp
next
  case (Cons fr frs)
  have step: "0.2 \<le> speedRef (gameLoop fr g) \<and> speedRef (gameLoop fr g) \<le> 0.5 \<and>
         speedRef g \<le> speedRef (gameLoop fr g)"
    using Cons.prems by (rule speedRef_gameLoop_bounds)
  then have "0.2 \<le> speedRef (frames frs (gameLoop fr g)) \<and>
      speedRef (frames frs (gameLoop fr g)) \<le> 0.5 \<and>
      speedRef (gameLoop fr g) \<le> speedRef (frames frs (gameLoop fr g))"
    using Cons.IH by blast
  then show ?case using step by simp
qed

lemma logicSpeedRef_gameLoop_bounds:
  assumes "0.2 \<le> logicSpeedRef l \<and> logicSpeedRef l \<le> 0.5"
  shows "0.2 \<le> logicSpeedRef (logic_gameLoop ps l) \<and> logicSpeedRef (logic_gameLoop ps l) \<le> 0.5 \<and>
         logicSpeedRef l \<le> logicSpeedRef (logic_gameLoop ps l)"
proof (cases "player l = None \<or> \<not> logicIsPlayingRef l")
  case True
  then show ?thesis using assms by (simp add: logic_gameLoop_idle)
next
  case False
  then obtain p where "player l = Some p" "logicIsPlayingRef l" by auto
  then show ?thesis using assms by (simp add: logic_gameLoop_running(4) min_def)
qed

lemma logicSpeedRef_gameLoop_update:
  assumes "player l \<noteq> None \<and> logicIsPlayingRef l \<and> logicIsPlayingRef (logic_gameLoop ps l)"
  shows "logicSpeedRef (logic_gameLoop ps l) = min (logicSpeedRef l + 0.0001) 0.5"
proof -
  from assms obtain p where p: "player l = Some p" "logicIsPlayingRef l" by auto
  have "\<not> checkCollisions (updatePlayerMovement ps p) (map (moveZ (- logicSpeedRef l)) (obstacles l))"
    using assms logic_gameLoop_running(3) [OF p] by simp
  then show ?thesis
    using logic_gameLoop_running(4) [OF p] by simp
qed

lemma logicSpeedRef_frames_bounds:
  "0.2 \<le> logicSpeedRef l \<and> logicSpeedRef l \<le> 0.5 \<Longrightarrow>
   0.2 \<le> logicSpeedRef (logic_frames pss l) \<and> logicSpeedRef (logic_frames pss l) \<le> 0.5 \<and>
   logicSpeedRef l \<le> logicSpeedRef (logic_frames pss l)"
proof (induction pss arbitrary: l)
  case Nil
  then show ?case by simp
next
  case (Cons ps pss)
  have step: "0.2 \<le> logicSpeedRef (logic_gameLoop ps l) \<and> logicSpeedRef (logic_gameLoop ps l) \<le> 0.5 \<and>
         logicSpeedRef l \<le> logicSpeedRef (logic_gameLoop ps l)"
    using Cons.prems by (rule logicSpeedRef_gameLoop_bounds)
  then have "0.2 \<le> logicSpeedRef (logic_frames pss (logic_gameLoop ps l)) \<and>
      logicSpeedRef (logic_frames pss (logic_gameLoop ps l)) \<le> 0.5 \<and>
      logicSpeedRef (logic_gameLoop ps l) \<le> logicSpeedRef (logic_frames pss (logic_gameLoop ps l))"
    using Cons.IH by blast
  then show ?case using step by simp
qed

lemma speedRef_startGame: "speedRef (startGame g) = 0.2"
  by (simp add: startGame_def)

lemma logicSpeedRef_startGame: "logicSpeedRef (logic_startGame l) = 0.2"
  by (simp add: logic_startGame_def baseSpeed_def)

text \<open>
  Claim C6. Starting sets the speed to 0.2. A frame that runs (and, in the logic module,
  does not end the session) sets the speed to \<open>min (speed + 0.0001) 0.5\<close>. A speed within
  [0.2, 0.5] stays there and never decreases through a frame, it grows strictly while it is
  below 0.5, and after any number of frames from a start it lies in [0.2, 0.5].
\<close>

theorem speed_ramp:
  "speedRef (startGame g) = 0.2 \<and>
   logicSpeedRef (logic_startGame l) = 0.2 \<and>
   (playerRef g \<noteq> None \<and> isPlayingRef g \<and> sceneRef g \<longrightarrow>
      speedRef (gameLoop fr g) = min (speedRef g + 0.0001) 0.5) \<and>
   (player l \<noteq> None \<and> logicIsPlayingRef l \<and> logicIsPlayingRef (logic_gameLoop ps l) \<longrightarrow>
      logicSpeedRef (logic_gameLoop ps l) = min (logicSpeedRef l + 0.0001) 0.5) \<and>
   (0.2 \<le> speedRef g \<and> speedRef g \<le> 0.5 \<longrightarrow>
      0.2 \<le> speedRef (gameLoop fr g) \<and> speedRef (gameLoop fr g) \<le> 0.5 \<and>
      speedRef g \<le> speedRef (gameLoop fr g)) \<and>
   (0.2 \<le> logicSpeedRef l \<and> logicSpeedRef l \<le> 0.5 \<longrightarrow>
      0.2 \<le> logicSpeedRef (logic_gameLoop ps l) \<and> logicSpeedRef (logic_gameLoop ps l) \<le> 0.5 \<and>
      logicSpeedRef l \<le> logicSpeedRef (logic_gameLoop ps l)) \<and>
   (playerRef g \<noteq> None \<and> isPlayingRef g \<and> sceneRef g \<and> speedRef g < 0.5 \<longrightarrow>
      speedRef g < speedRef (gameLoop fr g)) \<and>
   (player l \<noteq> None \<and> logicIsPlayingRef l \<and> logicIsPlayingRef (logic_gameLoop ps l) \<and>
    logicSpeedRef l < 0.5 \<longrightarrow>
      logicSpeedRef l < logicSpeedRef (logic_gameLoop ps l)) \<and>
   0.2 \<le> speedRef (frames frs (startGame g)) \<and> speedRef (frames frs (startGame g)) \<le> 0.5 \<and>
   0.2 \<le> logicSpeedRef (logic_frames pss (logic_startGame l)) \<and>
   logicSpeedRef (logic_frames pss (logic_startGame l)) \<le> 0.5"
proof -
  have a: "speedRef (gameLoop fr g) = min (speedRef g + 0.0001) 0.5"
    if "playerRef g \<noteq> None \<and> isPlayingRef g \<and> sceneRef g"
    using that gameLoop_running(2) [of g _ fr] by auto
  have b: "logicSpeedRef l < logicSpeedRef (logic_gameLoop ps l)"
    if "player l \<noteq> None \<and> logicIsPlayingRef l \<and> logicIsPlayingRef (logic_gameLoop ps l) \<and>
        logicSpeedRef l < 0.5"
    using that logicSpeedRef_gameLoop_update [of l ps] by (simp add: min_def)
  have c: "0.2 \<le> speedRef (frames frs (startGame g)) \<and> speedRef (frames frs (startGame g)) \<le> 0.5"
    using speedRef_frames_bounds [of "startGame g" frs] by (simp add: speedRef_startGame)
  have d: "0.2 \<le> logicSpeedRef (logic_frames pss (logic_startGame l)) \<and>
      logicSpeedRef (logic_frames pss (logic_startGame l)) \<le> 0.5"
    using logicSpeedRef_frames_bounds [of "logic_startGame l" pss]
    by (simp add: logicSpeedRef_startGame)
  show ?thesis
    using speedRef_startGame [of g] logicSpeedRef_startGame [of l] a
      logicSpeedRef_gameLoop_update [of l ps]
      speedRef_gameLoop_bounds [of g fr] logicSpeedRef_gameLoop_bounds [of l ps]
      speedRef_gameLoop_grows [of g fr] b c d
    by blast
qed

section \<open>Starting a run\<close>

text \<open>
  Claim C7. The start action of the monolithic component sets the score to 0, the speed to
  0.2, the phase to playing, the lane to 0 and the jump flag to false, puts the player mesh
  (when there is one) at the origin, empties the obstacle array and leaves the ground
  segments as they are. The start action of the logic module resets the refs it owns:
  score, speed, perfect-run counter and the playing flag.
\<close>

theorem start_resets:
  "scoreRef (startGame g) = 0 \<and>
   score (gameState (startGame g)) = 0 \<and>
   speedRef (startGame g) = 0.2 \<and>
   speed (gameState (startGame g)) = 0.2 \<and>
   isPlayingRef (startGame g) \<and>
   isPlaying (gameState (startGame g)) \<and>
   \<not> isGameOver (gameState (startGame g)) \<and>
   playerPosition (startGame g) = 0 \<and>
   \<not> isJumping (startGame g) \<and>
   playerRef (startGame g) = map_option (\<lambda>p. p\<lparr>position := Vector3 0 0 0\<rparr>) (playerRef g) \<and>
   (\<forall>p. playerRef (startGame g) = Some p \<longrightarrow>
        vx (position p) = 0 \<and> vy (position p) = 0 \<and> vz (position p) = 0) \<and>
   obstaclesRef (startGame g) = [] \<and>
   groundRef (startGame g) = groundRef g \<and>
   logicScoreRef (logic_startGame l) = 0 \<and>
   logicSpeedRef (logic_startGame l) = 0.2 \<and>
   perfectRunRef (logic_startGame l) = 0 \<and>
   logicIsPlayingRef (logic_startGame l) \<and>
   ground (logic_startGame l) = ground l"
  by (auto simp add: startGame_def logic_startGame_def baseSpeed_def Vector3_def)

theorem ground_wrap_witness:
  "playerRef (startGame initializeScene) \<noteq> None \<and>
   isPlayingRef (startGame initializeScene) \<and>
   sceneRef (startGame initializeScene) \<and>
   player (logic_startGame useGameLogic) \<noteq> None \<and>
   logicIsPlayingRef (logic_startGame useGameLogic) \<and>
   0 < length (groundRef (startGame initializeScene)) \<and>
   2 < length (groundRef (startGame initializeScene)) \<and>
   0 < length (ground (logic_startGame useGameLogic)) \<and>
   2 < length (ground (logic_startGame useGameLogic)) \<and>
   groundRef (gameLoop \<lparr>randomSpawn = 0.5, randomLane = 0.5, now = 0\<rparr> (startGame initializeScene)) =
     map (groundStep (speedRef (startGame initializeScene))) (groundRef (startGame initializeScene)) \<and>
   (\<exists>k::int.
      vz (position (groundRef (frames [\<lparr>randomSpawn = 0.5, randomLane = 0.5, now = 0\<rparr>]
            (startGame initializeScene)) ! 0)) -
      vz (position (groundRef (frames [\<lparr>randomSpawn = 0.5, randomLane = 0.5, now = 0\<rparr>]
            (startGame initializeScene)) ! 2)) =
      vz (position (groundRef (startGame initializeScene) ! 0)) -
      vz (position (groundRef (startGame initializeScene) ! 2)) + 200 * real_of_int k)"
proof -
  have h: "playerRef (startGame initializeScene) \<noteq> None \<and>
      isPlayingRef (startGame initializeScene) \<and> sceneRef (startGame initializeScene) \<and>
      0 < length (groundRef (startGame initializeScene)) \<and>
      2 < length (groundRef (startGame initializeScene))"
    by (simp add: startGame_def initializeScene_def)
  have h': "player (logic_startGame useGameLogic) \<noteq> None \<and>
      logicIsPlayingRef (logic_startGame useGameLogic) \<and>
      0 < length (ground (logic_startGame useGameLogic)) \<and>
      2 < length (ground (logic_startGame useGameLogic))"
    by (simp add: logic_startGame_def useGameLogic_def)
  show ?thesis
    using h h'
      ground_wrap [of "0.5" "box 0 (-2) (-19.8)" "startGame initializeScene"
        "\<lparr>randomSpawn = 0.5, randomLane = 0.5, now = 0\<rparr>" "logic_startGame useGameLogic"
        "\<lparr>lane = 0, jumping = False, jumpHeight = 0\<rparr>" 0 2
        "[\<lparr>randomSpawn = 0.5, randomLane = 0.5, now = 0\<rparr>]" 0 2 "[]"]
    by blast
qed

theorem speed_ramp_witness:
  "playerRef (startGame initializeScene) \<noteq> None \<and>
   isPlayingRef (startGame initializeScene) \<and>
   sceneRef (startGame initializeScene) \<and>
   speedRef (startGame initializeScene) < 0.5 \<and>
   0.2 \<le> speedRef (startGame initializeScene) \<and>
   speedRef (gameLoop \<lparr>randomSpawn = 0.5, randomLane = 0.5, now = 0\<rparr> (startGame initializeScene))
     = 0.2001 \<and>
   player (logic_startGame useGameLogic) \<noteq> None \<and>
   logicIsPlayingRef (logic_startGame useGameLogic) \<and>
   logicIsPlayingRef (logic_gameLoop \<lparr>lane = 0, jumping = False, jumpHeight = 0\<rparr>
      (logic_startGame useGameLogic)) \<and>
   logicSpeedRef (logic_gameLoop \<lparr>lane = 0, jumping = False, jumpHeight = 0\<rparr>
      (logic_startGame useGameLogic)) = 0.2001"
proof -
  have h: "playerRef (startGame initializeScene) \<noteq> None \<and>
      isPlayingRef (startGame initializeScene) \<and> sceneRef (startGame initializeScene) \<and>
      speedRef (startGame initializeScene) = 0.2"
    by (simp add: startGame_def initializeScene_def)
  have h': "player (logic_startGame useGameLogic) \<noteq> None \<and>
      logicIsPlayingRef (logic_startGame useGameLogic) \<and>
      logicSpeedRef (logic_startGame useGameLogic) = 0.2 \<and>
      logicIsPlayingRef (logic_gameLoop \<lparr>lane = 0, jumping = False, jumpHeight = 0\<rparr>
        (logic_startGame useGameLogic))"
    by (simp add: logic_startGame_def useGameLogic_def logic_gameLoop_def moveWorld_def
        checkCollisions_def baseSpeed_def Let_def updateDifficulty_def cleanupObstacles_def)
  show ?thesis
    using h h'
      speed_ramp [of "startGame initializeScene" "logic_startGame useGameLogic"
        "\<lparr>randomSpawn = 0.5, randomLane = 0.5, now = 0\<rparr>"
        "\<lparr>lane = 0, jumping = False, jumpHeight = 0\<rparr>" "[]" "[]"]
    by simp
qed

theorem start_resets_witness:
  "playerRef (startGame (initializeScene\<lparr>playerRef := Some (box 1.3 2.6 0)\<rparr>)) = Some (box 0 0 0) \<and>
   vy (position (box 0 0 0)) = 0"
  using start_resets [of "initializeScene\<lparr>playerRef := Some (box 1.3 2.6 0)\<rparr>" useGameLogic]
  by (simp add: initializeScene_def box_def Vector3_def)

section \<open>Jumping\<close>

lemma vy_movePlayer:
  "vy (position (movePlayer tgt jmp p)) =
     (if jmp then max 0 (vy (position p) + 0.3) else max 0 (vy (position p) - 0.2))"
  by (simp add: movePlayer_def Let_def)

lemma vy_updatePlayerMovement:
  "vy (position (updatePlayerMovement ps p)) =
     (if jumping ps then max 0 (vy (position p) + 0.3) else max 0 (vy (position p) - 0.2))"
  by (simp add: updatePlayerMovement_def Let_def jumpSpeed_def fallSpeed_def)

lemma apex_arith: "(4 \<le> 0.3 * real (Suc k)) \<longleftrightarrow> 13 \<le> k"
proof
  assume "4 \<le> 0.3 * real (Suc k)"
  then have "real 40 \<le> real (3 * Suc k)" by simp
  then have "40 \<le> 3 * Suc k" by (simp only: of_nat_le_iff)
  then show "13 \<le> k" by simp
next
  assume "13 \<le> k"
  then have "real 13 \<le> real k" by (simp only: of_nat_le_iff)
  then show "4 \<le> 0.3 * real (Suc k)" by simp
qed

lemma jump_ascent:
  assumes p: "playerRef g = Some p" and y0: "vy (position p) = 0" and j: "isJumping g"
    and sc: "sceneRef g" and len: "length frs = 14"
    and play: "\<forall>k<14. isPlayingRef (frames (take k frs) g)"
  shows "k \<le> 14 \<Longrightarrow>
     (\<exists>q. playerRef (frames (take k frs) g) = Some q \<and> vy (position q) = 0.3 * real k) \<and>
     sceneRef (frames (take k frs) g) \<and>
     (isJumping (frames (take k frs) g) \<longleftrightarrow> k < 14)"
proof (induction k)
  case 0
  show ?case using p y0 j sc by simp
next
  case (Suc k)
  let ?g = "frames (take k frs) g"
  from Suc.prems have k: "k < 14" by simp
  with Suc.IH obtain q where q: "playerRef ?g = Some q" "vy (position q) = 0.3 * real k"
    and sc': "sceneRef ?g" and j': "isJumping ?g" by auto
  from play k have pl: "isPlayingRef ?g" by simp
  have step: "frames (take (Suc k) frs) g = gameLoop (frs ! k) ?g"
    using k len by (simp add: take_Suc_conv_app_nth frames_append)
  have y: "vy (position (movePlayer (playerPosition ?g) (isJumping ?g) q)) = 0.3 * real (Suc k)"
    using j' q(2) by (simp add: vy_movePlayer algebra_simps)
  have "playerRef (gameLoop (frs ! k) ?g) = Some (movePlayer (playerPosition ?g) (isJumping ?g) q)"
    using q(1) pl sc' by (rule gameLoop_running(3))
  moreover have "sceneRef (gameLoop (frs ! k) ?g)"
    using q(1) pl sc' by (rule gameLoop_running(5))
  moreover have "isJumping (gameLoop (frs ! k) ?g) \<longleftrightarrow> Suc k < 14"
    using gameLoop_running(4) [OF q(1) pl sc', of "frs ! k"] j' apex_arith [of k]
    unfolding y by auto
  ultimately show ?case
    unfolding step using y by simp
qed

text \<open>
  Claim C4. A jumping player on or above the ground rises by 0.3 per frame. In the
  monolithic component, from height 0 with the jump flag set and the session playing for
  14 frames, the flag is still set after each of the first 13 frames, the height after
  \<open>k\<close> frames is \<open>0.3 k\<close>, and after frame 14, which is \<open>\<lceil>4 / 0.3\<rceil>\<close>, the flag is
  cleared at height 4.2.
\<close>

theorem jump_apex:
  "nat \<lceil>(4::real) / 0.3\<rceil> = 14 \<and>
   (0 \<le> vy (position p) \<longrightarrow>
      vy (position (movePlayer tgt True p)) = vy (position p) + 0.3 \<and>
      vy (position (updatePlayerMovement \<lparr>lane = tgt, jumping = True, jumpHeight = h\<rparr> p))
        = vy (position p) + 0.3) \<and>
   (playerRef g = Some p \<and> vy (position p) = 0 \<and> isJumping g \<and> sceneRef g \<and>
    length frs = 14 \<and> (\<forall>k<14. isPlayingRef (frames (take k frs) g)) \<longrightarrow>
      (\<forall>k<14. isJumping (frames (take k frs) g)) \<and>
      (\<forall>k\<le>14. \<exists>q. playerRef (frames (take k frs) g) = Some q \<and> vy (position q) = 0.3 * real k) \<and>
      \<not> isJumping (frames frs g) \<and>
      (\<exists>q. playerRef (frames frs g) = Some q \<and> vy (position q) = 4.2 \<and> 4 \<le> vy (position q)))"
proof -
  have a: "nat \<lceil>(4::real) / 0.3\<rceil> = 14" by simp
  have b: "vy (position (movePlayer tgt True p)) = vy (position p) + 0.3 \<and>
      vy (position (updatePlayerMovement \<lparr>lane = tgt, jumping = True, jumpHeight = h\<rparr> p))
        = vy (position p) + 0.3" if "0 \<le> vy (position p)"
    using that by (simp add: vy_movePlayer vy_updatePlayerMovement)
  have c: "(\<forall>k<14. isJumping (frames (take k frs) g)) \<and>
      (\<forall>k\<le>14. \<exists>q. playerRef (frames (take k frs) g) = Some q \<and> vy (position q) = 0.3 * real k) \<and>
      \<not> isJumping (frames frs g) \<and>
      (\<exists>q. playerRef (frames frs g) = Some q \<and> vy (position q) = 4.2 \<and> 4 \<le> vy (position q))"
    if h: "playerRef g = Some p \<and> vy (position p) = 0 \<and> isJumping g \<and> sceneRef g \<and>
      length frs = 14 \<and> (\<forall>k<14. isPlayingRef (frames (take k frs) g))"
  proof -
    have asc: "(\<exists>q. playerRef (frames (take k frs) g) = Some q \<and> vy (position q) = 0.3 * real k) \<and>
       sceneRef (frames (take k frs) g) \<and> (isJumping (frames (take k frs) g) \<longleftrightarrow> k < 14)"
      if "k \<le> 14" for k
      using h that jump_ascent [of g p frs k] by blast
    have full: "take 14 frs = frs" using h by simp
    have "(\<exists>q. playerRef (frames frs g) = Some q \<and> vy (position q) = 0.3 * real (14::nat)) \<and>
        \<not> isJumping (frames frs g)"
      using asc [of 14] unfolding full by simp
    then have last: "\<not> isJumping (frames frs g) \<and>
        (\<exists>q. playerRef (frames frs g) = Some q \<and> vy (position q) = 4.2 \<and> 4 \<le> vy (position q))"
      by auto
    have "\<forall>k<14. isJumping (frames (take k frs) g)"
      using asc by simp
    moreover have "\<forall>k\<le>14. \<exists>q. playerRef (frames (take k frs) g) = Some q \<and>
        vy (position q) = 0.3 * real k"
      using asc by blast
    ultimately show ?thesis using last by blast
  qed
  show ?thesis using a b c by blast
qed

lemma gameLoop_quiet:
  assumes "playerRef g = Some p" "isPlayingRef g" "sceneRef g" "obstaclesRef g = []"
    "\<not> randomSpawn fr < 0.02"
  shows "isPlayingRef (gameLoop fr g) \<and> obstaclesRef (gameLoop fr g) = [] \<and>
         scoreRef (gameLoop fr g) = scoreRef g"
  using assms by (simp add: gameLoop_def Let_def)

lemma frames_quiet:
  assumes "\<forall>fr \<in> set frs. \<not> randomSpawn fr < 0.02"
  shows "playerRef g \<noteq> None \<and> isPlayingRef g \<and> sceneRef g \<and> obstaclesRef g = [] \<Longrightarrow>
    playerRef (frames frs g) \<noteq> None \<and> isPlayingRef (frames frs g) \<and> sceneRef (frames frs g) \<and>
    obstaclesRef (frames frs g) = [] \<and> scoreRef (frames frs g) = scoreRef g"
  using assms
proof (induction frs arbitrary: g)
  case Nil
  then show ?case by simp
next
  case (Cons fr frs)
  from Cons.prems obtain p where p: "playerRef g = Some p" "isPlayingRef g" "sceneRef g"
      "obstaclesRef g = []" and fr: "\<not> randomSpawn fr < 0.02" by auto
  have "playerRef (gameLoop fr g) \<noteq> None \<and> isPlayingRef (gameLoop fr g) \<and>
      sceneRef (gameLoop fr g) \<and> obstaclesRef (gameLoop fr g) = []"
    using gameLoop_quiet [OF p fr] gameLoop_running(3,5) [OF p(1,2,3), of fr] by simp
  moreover have "scoreRef (gameLoop fr g) = scoreRef g"
    using gameLoop_quiet [OF p fr] by simp
  ultimately show ?case
    using Cons.IH [of "gameLoop fr g"] Cons.prems(2) by simp
qed

theorem jump_apex_witness:
  "playerRef ((startGame initializeScene)\<lparr>isJumping := True\<rparr>) = Some (box 0 0 0) \<and>
   vy (position (box 0 0 0)) = 0 \<and>
   isJumping ((startGame initializeScene)\<lparr>isJumping := True\<rparr>) \<and>
   sceneRef ((startGame initializeScene)\<lparr>isJumping := True\<rparr>) \<and>
   length (replicate 14 \<lparr>randomSpawn = 0.5, randomLane = 0.5, now = 0\<rparr>) = 14 \<and>
   isPlayingRef (frames (take 13 (replicate 14 \<lparr>randomSpawn = 0.5, randomLane = 0.5, now = 0\<rparr>))
        ((startGame initializeScene)\<lparr>isJumping := True\<rparr>)) \<and>
   \<not> isJumping (frames (replicate 14 \<lparr>randomSpawn = 0.5, randomLane = 0.5, now = 0\<rparr>)
        ((startGame initializeScene)\<lparr>isJumping := True\<rparr>)) \<and>
   isJumping (frames (take 13 (replicate 14 \<lparr>randomSpawn = 0.5, randomLane = 0.5, now = 0\<rparr>))
        ((startGame initializeScene)\<lparr>isJumping := True\<rparr>))"
proof -
  let ?g = "(startGame initializeScene)\<lparr>isJumping := True\<rparr>"
  let ?frs = "replicate 14 \<lparr>randomSpawn = 0.5, randomLane = 0.5, now = 0\<rparr>"
  have g: "playerRef ?g = Some (box 0 0 0) \<and> isJumping ?g \<and> sceneRef ?g \<and> isPlayingRef ?g \<and>
      obstaclesRef ?g = []"
    by (simp add: startGame_def initializeScene_def box_def Vector3_def)
  have y: "vy (position (box 0 0 0)) = 0"
    by (simp add: box_def Vector3_def)
  have play: "\<forall>k<14. isPlayingRef (frames (take k ?frs) ?g)"
  proof (intro allI impI)
    fix k :: nat
    have "\<forall>fr \<in> set (take k ?frs). \<not> randomSpawn fr < 0.02"
      by (auto dest!: in_set_takeD)
    then show "isPlayingRef (frames (take k ?frs) ?g)"
      using frames_quiet [of "take k ?frs" ?g] g by simp
  qed
  have len: "length ?frs = 14" by simp
  have "(\<forall>k<14. isJumping (frames (take k ?frs) ?g)) \<and> \<not> isJumping (frames ?frs ?g)"
    using jump_apex [of "box 0 0 0" 0 0 ?g ?frs] g y play len by blast
  then show ?thesis
    using g y play len by simp
qed

section \<open>The frame in which a collision is found\<close>


text \<open>
  Claim C2, evaluated on the monolithic component at \<open>collisionScene\<close> and \<open>spawnFrame\<close>.
  \<open>detected\<close> is the state in which the callback has just found the collision at the first
  obstacle, \<open>ended\<close> the state at the end of the frame. The session is over in both, but
  between them the second obstacle has scrolled, an obstacle has been spawned, the player
  has moved towards the right lane and the speed has gone up.
\<close>

theorem collision_frame_runs_on:
  "(let detected = obstacleStep (now spawnFrame) (Vector3 0 0 0) 0
        (collisionScene\<lparr>groundRef := map (groundStep (speedRef collisionScene)) (groundRef collisionScene)\<rparr>);
        ended = gameLoop spawnFrame collisionScene
    in playerRef collisionScene = Some (box 0 0 0) \<and>
       isPlayingRef collisionScene \<and>
       \<not> isPlayingRef detected \<and> isGameOver (gameState detected) \<and>
       \<not> isPlayingRef ended \<and> isGameOver (gameState ended) \<and>
       speedRef detected = 0.2 \<and> speedRef ended = 0.2001 \<and>
       obstaclesRef detected = [box 0 0.5 0, box 2 0.5 50] \<and>
       obstaclesRef ended =
         [box 0 0.5 0, box 2 0.5 49.8,
          \<lparr>position = Vector3 0 0.5 100, scaling = Vector3 0.1 0.1 0.1, spawnTime = Some 1000\<rparr>] \<and>
       playerRef detected = Some (box 0 0 0) \<and> playerRef ended = Some (box 0.2 0 0) \<and>
       scoreRef detected = 0 \<and> scoreRef ended = 0)"
  by (simp add: gameLoop_def collisionScene_def spawnFrame_def startGame_def initializeScene_def
      obstacleStep_def scaleIn_def moveZ_def box_def Vector3_def collides_def Let_def
      createObstacle_def lanes_def movePlayer_def splice1_def)

theorem collision_frame_runs_on_witness:
  "playerRef collisionScene \<noteq> None \<and> isPlayingRef collisionScene \<and> sceneRef collisionScene \<and>
   randomSpawn spawnFrame < 0.02 \<and>
   \<not> isPlayingRef (gameLoop spawnFrame collisionScene) \<and>
   speedRef (gameLoop spawnFrame collisionScene) = 0.2001 \<and>
   length (obstaclesRef (gameLoop spawnFrame collisionScene)) = 3 \<and>
   playerRef (gameLoop spawnFrame collisionScene) = Some (box 0.2 0 0)"
proof -
  have "playerRef collisionScene \<noteq> None \<and> isPlayingRef collisionScene \<and>
      sceneRef collisionScene \<and> randomSpawn spawnFrame < 0.02"
    by (simp add: collisionScene_def spawnFrame_def startGame_def initializeScene_def)
  then show ?thesis
    using collision_frame_runs_on by (simp add: Let_def)
qed

section \<open>Where in the frame the collision check sits\<close>

lemma obstacleStep_fields:
  "isPlayingRef (obstacleStep t pp k g) \<longleftrightarrow>
     isPlayingRef g \<and> \<not> collides pp (position (moveZ (- speedRef g) (obstaclesRef g ! k)))"
  "\<not> vz (position (obstaclesRef g ! k)) - speedRef g < -20 \<Longrightarrow>
     obstaclesRef (obstacleStep t pp k g) =
       (obstaclesRef g)[k := scaleIn t (moveZ (- speedRef g) (obstaclesRef g ! k))]"
  "\<not> vz (position (obstaclesRef g ! k)) - speedRef g < -20 \<Longrightarrow>
     scoreRef (obstacleStep t pp k g) = scoreRef g"
  by (simp_all add: obstacleStep_def Let_def position_scaleIn position_moveZ)

lemma obstacle_loop_no_removal:
  "n = length (obstaclesRef g) - k \<Longrightarrow> k \<le> length (obstaclesRef g) \<Longrightarrow>
   \<forall>ob \<in> set (drop k (obstaclesRef g)). \<not> vz (position ob) - speedRef g < -20 \<Longrightarrow>
   obstaclesRef (forEach (\<lambda>s. length (obstaclesRef s)) (obstacleStep t pp) n k g) =
     take k (obstaclesRef g) @ map (\<lambda>ob. scaleIn t (moveZ (- speedRef g) ob)) (drop k (obstaclesRef g)) \<and>
   (isPlayingRef (forEach (\<lambda>s. length (obstaclesRef s)) (obstacleStep t pp) n k g) \<longleftrightarrow>
      isPlayingRef g \<and>
      \<not> (\<exists>ob \<in> set (drop k (obstaclesRef g)). collides pp (position (moveZ (- speedRef g) ob)))) \<and>
   scoreRef (forEach (\<lambda>s. length (obstaclesRef s)) (obstacleStep t pp) n k g) = scoreRef g"
proof (induction n arbitrary: k g)
  case 0
  then show ?case by simp
next
  case (Suc n)
  let ?obs = "obstaclesRef g"
  let ?m = "\<lambda>ob. scaleIn t (moveZ (- speedRef g) ob)"
  let ?g = "obstacleStep t pp k g"
  from Suc.prems have k: "k < length ?obs" by simp
  then have dropk: "drop k ?obs = ?obs ! k # drop (Suc k) ?obs"
    by (simp add: Cons_nth_drop_Suc)
  with Suc.prems(3) have keep: "\<not> vz (position (?obs ! k)) - speedRef g < -20" by simp
  have obs': "obstaclesRef ?g = ?obs[k := ?m (?obs ! k)]"
    using keep by (rule obstacleStep_fields(2))
  have sp': "speedRef ?g = speedRef g" by (simp add: obstacleStep_keeps)
  have a: "n = length (obstaclesRef ?g) - Suc k" using Suc.prems(1) obs' by simp
  have b: "Suc k \<le> length (obstaclesRef ?g)" using k obs' by simp
  have c: "\<forall>ob \<in> set (drop (Suc k) (obstaclesRef ?g)). \<not> vz (position ob) - speedRef ?g < -20"
    using Suc.prems(3) dropk obs' sp' by simp
  note IH = Suc.IH [OF a b c]
  have unfold: "forEach (\<lambda>s. length (obstaclesRef s)) (obstacleStep t pp) (Suc n) k g =
      forEach (\<lambda>s. length (obstaclesRef s)) (obstacleStep t pp) n (Suc k) ?g"
    using k by simp
  have l1: "take (Suc k) (obstaclesRef ?g) = take k ?obs @ [?m (?obs ! k)]"
    using k obs' by (simp add: take_Suc_conv_app_nth)
  have l2: "drop (Suc k) (obstaclesRef ?g) = drop (Suc k) ?obs"
    using obs' by simp
  show ?case
    unfolding unfold
    using IH l1 l2 sp' dropk obstacleStep_fields(1) [of t pp k g] obstacleStep_fields(3) [OF keep, of t pp]
    by auto
qed

lemma gameLoop_outcome:
  assumes "playerRef g = Some p" "isPlayingRef g" "sceneRef g"
  shows "isPlayingRef (gameLoop fr g) \<longleftrightarrow>
     isPlayingRef (forEach (\<lambda>s. length (obstaclesRef s)) (obstacleStep (now fr) (position p))
        (length (obstaclesRef g)) 0
        (g\<lparr>groundRef := map (groundStep (speedRef g)) (groundRef g)\<rparr>))"
  using assms by (simp add: gameLoop_def Let_def createObstacle_keeps)

lemma gameLoop_no_removal:
  assumes "playerRef g = Some p" "isPlayingRef g" "sceneRef g"
    "\<forall>ob \<in> set (obstaclesRef g). \<not> vz (position ob) - speedRef g < -20"
  shows "isPlayingRef (gameLoop fr g) \<longleftrightarrow>
     \<not> (\<exists>ob \<in> set (obstaclesRef g). collides (position p) (position (moveZ (- speedRef g) ob)))"
proof -
  let ?g1 = "g\<lparr>groundRef := map (groundStep (speedRef g)) (groundRef g)\<rparr>"
  have "isPlayingRef (forEach (\<lambda>s. length (obstaclesRef s)) (obstacleStep (now fr) (position p))
        (length (obstaclesRef ?g1)) 0 ?g1) \<longleftrightarrow>
      isPlayingRef ?g1 \<and>
      \<not> (\<exists>ob \<in> set (drop 0 (obstaclesRef ?g1)). collides (position p) (position (moveZ (- speedRef ?g1) ob)))"
    using obstacle_loop_no_removal [of "length (obstaclesRef ?g1)" ?g1 0 "now fr" "position p"] assms(4)
    by simp
  then show ?thesis
    using assms(2) gameLoop_outcome [OF assms(1,2,3), of fr] by simp
qed

lemma obstacleStep_commute:
  "obstacleStep t pp k (g\<lparr>playerPosition := a, isJumping := b\<rparr>) =
     (obstacleStep t pp k g)\<lparr>playerPosition := a, isJumping := b\<rparr>"
  by (simp add: obstacleStep_def Let_def)

lemma obstacle_loop_commute:
  "forEach (\<lambda>s. length (obstaclesRef s)) (obstacleStep t pp) n k (g\<lparr>playerPosition := a, isJumping := b\<rparr>) =
     (forEach (\<lambda>s. length (obstaclesRef s)) (obstacleStep t pp) n k g)\<lparr>playerPosition := a, isJumping := b\<rparr>"
proof (induction n arbitrary: k g)
  case 0
  show ?case by simp
next
  case (Suc n)
  show ?case
  proof (cases "k < length (obstaclesRef g)")
    case True
    then show ?thesis using Suc.IH [of "Suc k" "obstacleStep t pp k g"]
      by (simp add: obstacleStep_commute)
  next
    case False
    then show ?thesis using Suc.IH [of "Suc k" g] by simp
  qed
qed

lemma gameLoop_outcome_lag:
  "isPlayingRef (gameLoop fr (g\<lparr>playerPosition := a, isJumping := b\<rparr>)) = isPlayingRef (gameLoop fr g)"
proof (cases "playerRef g = None \<or> \<not> isPlayingRef g \<or> \<not> sceneRef g")
  case True
  then have "gameLoop fr (g\<lparr>playerPosition := a, isJumping := b\<rparr>) = g\<lparr>playerPosition := a, isJumping := b\<rparr>"
    by (intro gameLoop_idle) simp
  then show ?thesis using True by (simp add: gameLoop_idle)
next
  case False
  then obtain p where p: "playerRef g = Some p" "isPlayingRef g" "sceneRef g" by auto
  let ?g' = "g\<lparr>playerPosition := a, isJumping := b\<rparr>"
  have p': "playerRef ?g' = Some p" "isPlayingRef ?g'" "sceneRef ?g'" using p by simp_all
  have eq: "?g'\<lparr>groundRef := map (groundStep (speedRef ?g')) (groundRef ?g')\<rparr> =
      (g\<lparr>groundRef := map (groundStep (speedRef g)) (groundRef g)\<rparr>)\<lparr>playerPosition := a, isJumping := b\<rparr>"
    by simp
  show ?thesis
    unfolding gameLoop_outcome [OF p] gameLoop_outcome [OF p'] eq obstacle_loop_commute
    by simp
qed

text \<open>
  Claim C3, as amended. In the monolithic component the outcome of the collision check of
  a frame does not depend on the lane target and the jump flag that drive this frame's
  player movement; in a frame that removes no obstacle, the session goes on exactly when no
  obstacle, at its position after the scroll, collides with the player at the position it
  had when the frame began, and the player moves afterwards. In the logic module the
  session goes on exactly when no scrolled obstacle collides with the player at the
  position it has after this frame's movement.
\<close>

theorem collision_check_order:
  "(isPlayingRef (gameLoop fr (g\<lparr>playerPosition := a, isJumping := b\<rparr>)) \<longleftrightarrow>
      isPlayingRef (gameLoop fr g)) \<and>
   (playerRef g = Some p \<and> isPlayingRef g \<and> sceneRef g \<and>
    (\<forall>ob \<in> set (obstaclesRef g). \<not> vz (position ob) - speedRef g < -20) \<longrightarrow>
      (isPlayingRef (gameLoop fr g) \<longleftrightarrow>
         \<not> (\<exists>ob \<in> set (obstaclesRef g).
               collides (position p) (position (moveZ (- speedRef g) ob)))) \<and>
      playerRef (gameLoop fr g) = Some (movePlayer (playerPosition g) (isJumping g) p)) \<and>
   (player l = Some q \<and> logicIsPlayingRef l \<longrightarrow>
      (logicIsPlayingRef (logic_gameLoop ps l) \<longleftrightarrow>
         \<not> checkCollisions (updatePlayerMovement ps q)
              (map (moveZ (- logicSpeedRef l)) (obstacles l))) \<and>
      player (logic_gameLoop ps l) = Some (updatePlayerMovement ps q))"
proof -
  have m: "(isPlayingRef (gameLoop fr g) \<longleftrightarrow>
         \<not> (\<exists>ob \<in> set (obstaclesRef g).
               collides (position p) (position (moveZ (- speedRef g) ob)))) \<and>
      playerRef (gameLoop fr g) = Some (movePlayer (playerPosition g) (isJumping g) p)"
    if "playerRef g = Some p \<and> isPlayingRef g \<and> sceneRef g \<and>
        (\<forall>ob \<in> set (obstaclesRef g). \<not> vz (position ob) - speedRef g < -20)"
    using that gameLoop_no_removal [of g p fr] gameLoop_running(3) [of g p fr] by blast
  have lg: "(logicIsPlayingRef (logic_gameLoop ps l) \<longleftrightarrow>
         \<not> checkCollisions (updatePlayerMovement ps q)
              (map (moveZ (- logicSpeedRef l)) (obstacles l))) \<and>
      player (logic_gameLoop ps l) = Some (updatePlayerMovement ps q)"
    if "player l = Some q \<and> logicIsPlayingRef l"
    using that logic_gameLoop_running(2,3) [of l q ps] by blast
  show ?thesis
    using gameLoop_outcome_lag [of fr b a g] m lg by blast
qed

text \<open>
  In the logic module the check does not see the player's position from before the
  movement: in \<open>jumpScene\<close> that position collides with the scrolled obstacle, yet the
  frame, which first lifts the player to 2.1, goes on playing.
\<close>

theorem collision_check_order_counterexample:
  "player jumpScene = Some (box 0 1.8 0) \<and>
   logicIsPlayingRef jumpScene \<and>
   checkCollisions (box 0 1.8 0) (obstacles (moveWorld jumpScene)) \<and>
   logicIsPlayingRef (logic_gameLoop \<lparr>lane = 0, jumping = True, jumpHeight = 1.8\<rparr> jumpScene)"
  by (simp add: jumpScene_def logic_startGame_def useGameLogic_def logic_gameLoop_def moveWorld_def
      updatePlayerMovement_def checkCollisions_def cleanupObstacles_def cleanupStep_def
      updateDifficulty_def moveZ_def box_def Vector3_def Let_def baseSpeed_def tolerance_def
      collisionDistance_def jumpSafeHeight_def jumpSpeed_def laneChangeSpeed_def)

theorem collision_check_order_witness:
  "playerRef collisionScene = Some (box 0 0 0) \<and>
   isPlayingRef collisionScene \<and>
   sceneRef collisionScene \<and>
   obstaclesRef collisionScene = [box 0 0.5 0.2, box 2 0.5 50] \<and>
   \<not> vz (position (box 0 0.5 0.2)) - speedRef collisionScene < -20 \<and>
   \<not> vz (position (box 2 0.5 50)) - speedRef collisionScene < -20 \<and>
   \<not> isPlayingRef (gameLoop spawnFrame collisionScene) \<and>
   player jumpScene = Some (box 0 1.8 0) \<and>
   logicIsPlayingRef jumpScene \<and>
   player (logic_gameLoop \<lparr>lane = 0, jumping = True, jumpHeight = 1.8\<rparr> jumpScene) =
     Some (updatePlayerMovement \<lparr>lane = 0, jumping = True, jumpHeight = 1.8\<rparr> (box 0 1.8 0))"
proof -
  have h: "playerRef collisionScene = Some (box 0 0 0) \<and> isPlayingRef collisionScene \<and>
      sceneRef collisionScene \<and>
      (\<forall>ob \<in> set (obstaclesRef collisionScene). \<not> vz (position ob) - speedRef collisionScene < -20)"
    by (simp add: collisionScene_def startGame_def initializeScene_def box_def Vector3_def)
  have c: "\<exists>ob \<in> set (obstaclesRef collisionScene).
      collides (position (box 0 0 0)) (position (moveZ (- speedRef collisionScene) ob))"
    by (simp add: collisionScene_def startGame_def initializeScene_def box_def Vector3_def
        collides_def moveZ_def)
  have h': "player jumpScene = Some (box 0 1.8 0) \<and> logicIsPlayingRef jumpScene"
    by (simp add: jumpScene_def logic_startGame_def useGameLogic_def)
  have o: "obstaclesRef collisionScene = [box 0 0.5 0.2, box 2 0.5 50] \<and>
      \<not> vz (position (box 0 0.5 0.2)) - speedRef collisionScene < -20 \<and>
      \<not> vz (position (box 2 0.5 50)) - speedRef collisionScene < -20"
    by (simp add: collisionScene_def startGame_def initializeScene_def box_def Vector3_def)
  show ?thesis
    using h c h' o
      collision_check_order [of spawnFrame False 0 collisionScene "box 0 0 0" jumpScene
        "box 0 1.8 0" "\<lparr>lane = 0, jumping = True, jumpHeight = 1.8\<rparr>"]
    by blast
qed

section \<open>An obstacle passing the rear threshold\<close>

lemma forEach_beyond: "len s \<le> k \<Longrightarrow> forEach len f n k s = s"
  by (induction n arbitrary: k) simp_all

lemma take_splice1: "k \<le> index \<Longrightarrow> index < length xs \<Longrightarrow> take k (splice1 index xs) = take k xs"
  by (simp add: splice1_def min_def)

lemma splice1_update: "splice1 index (xs[index := v]) = splice1 index xs"
  by (simp add: splice1_def)

lemma obstacleStep_removes:
  assumes "\<not> collides pp (position (moveZ (- speedRef g) (obstaclesRef g ! index)))"
    "vz (position (obstaclesRef g ! index)) - speedRef g < -20"
  shows "obstacleStep t pp index g =
     g\<lparr>obstaclesRef := splice1 index (obstaclesRef g),
       scoreRef := scoreRef g + 10,
       gameState := (gameState g)\<lparr>score := scoreRef g + 10\<rparr>\<rparr>"
  using assms
  by (simp add: obstacleStep_def Let_def position_scaleIn position_moveZ splice1_update)

lemma obstacleStep_stays:
  assumes "\<not> collides pp (position (moveZ (- speedRef g) (obstaclesRef g ! index)))"
    "\<not> vz (position (obstaclesRef g ! index)) - speedRef g < -20"
  shows "obstacleStep t pp index g =
     g\<lparr>obstaclesRef := (obstaclesRef g)[index := scaleIn t (moveZ (- speedRef g) (obstaclesRef g ! index))]\<rparr>"
  using assms
  by (simp add: obstacleStep_def Let_def position_scaleIn position_moveZ)

lemma obstacle_loop_prefix:
  "k \<le> k' \<Longrightarrow>
   take k (obstaclesRef (forEach (\<lambda>s. length (obstaclesRef s)) (obstacleStep t pp) n k' g)) =
     take k (obstaclesRef g)"
proof (induction n arbitrary: k' g)
  case 0
  show ?case by simp
next
  case (Suc n)
  show ?case
  proof (cases "k' < length (obstaclesRef g)")
    case False
    then show ?thesis using Suc.IH [of "Suc k'" g] Suc.prems by simp
  next
    case True
    have "take k (obstaclesRef (obstacleStep t pp k' g)) = take k (obstaclesRef g)"
      using True Suc.prems
      by (simp add: obstacleStep_def Let_def take_splice1)
    then show ?thesis
      using True Suc.IH [of "Suc k'" "obstacleStep t pp k' g"] Suc.prems by simp
  qed
qed

lemma far_behind_no_collision:
  "- 18.5 \<le> vz pp \<Longrightarrow> vz (position ob) - s < -20 \<Longrightarrow> \<not> collides pp (position (moveZ (- s) ob))"
  by (simp add: collides_def position_moveZ)


lemma gameLoop_obstacles:
  assumes "playerRef g = Some p" "isPlayingRef g" "sceneRef g" "\<not> randomSpawn fr < 0.02"
  shows "obstaclesRef (gameLoop fr g) =
      obstaclesRef (forEach (\<lambda>s. length (obstaclesRef s)) (obstacleStep (now fr) (position p))
        (length (obstaclesRef g)) 0
        (g\<lparr>groundRef := map (groundStep (speedRef g)) (groundRef g)\<rparr>))"
    and "scoreRef (gameLoop fr g) =
      scoreRef (forEach (\<lambda>s. length (obstaclesRef s)) (obstacleStep (now fr) (position p))
        (length (obstaclesRef g)) 0
        (g\<lparr>groundRef := map (groundStep (speedRef g)) (groundRef g)\<rparr>))"
    and "isPlayingRef (gameLoop fr g) =
      isPlayingRef (forEach (\<lambda>s. length (obstaclesRef s)) (obstacleStep (now fr) (position p))
        (length (obstaclesRef g)) 0
        (g\<lparr>groundRef := map (groundStep (speedRef g)) (groundRef g)\<rparr>))"
  using assms by (simp_all add: gameLoop_def Let_def)

lemma gameLoop_single:
  assumes "playerRef g = Some p" "isPlayingRef g" "sceneRef g" "\<not> randomSpawn fr < 0.02"
    and "obstaclesRef g = [ob]"
    and "\<not> collides (position p) (position (moveZ (- speedRef g) ob))"
  shows "obstaclesRef (gameLoop fr g) =
      (if vz (position ob) - speedRef g < -20 then []
       else [scaleIn (now fr) (moveZ (- speedRef g) ob)])"
    and "scoreRef (gameLoop fr g) =
      (if vz (position ob) - speedRef g < -20 then scoreRef g + 10 else scoreRef g)"
    and "isPlayingRef (gameLoop fr g)"
proof -
  let ?g1 = "g\<lparr>groundRef := map (groundStep (speedRef g)) (groundRef g)\<rparr>"
  have loop: "forEach (\<lambda>s. length (obstaclesRef s)) (obstacleStep (now fr) (position p))
        (length (obstaclesRef g)) 0 ?g1 = obstacleStep (now fr) (position p) 0 ?g1"
    using assms(5) by simp
  have nc: "\<not> collides (position p) (position (moveZ (- speedRef ?g1) (obstaclesRef ?g1 ! 0)))"
    using assms(5,6) by simp
  show "obstaclesRef (gameLoop fr g) =
      (if vz (position ob) - speedRef g < -20 then []
       else [scaleIn (now fr) (moveZ (- speedRef g) ob)])"
    unfolding gameLoop_obstacles(1) [OF assms(1-4)] loop
    using assms(5) obstacleStep_removes [OF nc, of "now fr"] obstacleStep_stays [OF nc, of "now fr"]
    by (simp add: splice1_def)
  show "scoreRef (gameLoop fr g) =
      (if vz (position ob) - speedRef g < -20 then scoreRef g + 10 else scoreRef g)"
    unfolding gameLoop_obstacles(2) [OF assms(1-4)] loop
    using assms(5) obstacleStep_removes [OF nc, of "now fr"] obstacleStep_stays [OF nc, of "now fr"]
    by simp
  show "isPlayingRef (gameLoop fr g)"
    unfolding gameLoop_obstacles(3) [OF assms(1-4)] loop
    using assms(2,5) nc by (simp add: isPlayingRef_obstacleStep)
qed

lemma gameLoop_front_pair:
  assumes "playerRef g = Some p" "isPlayingRef g" "sceneRef g"
    and "obstaclesRef g = a # b # rest"
    and "\<not> collides (position p) (position (moveZ (- speedRef g) a))"
    and "vz (position a) - speedRef g < -20"
  shows "take 1 (obstaclesRef (gameLoop fr g)) = [b]"
    and "rest = [] \<Longrightarrow> \<not> randomSpawn fr < 0.02 \<Longrightarrow>
         obstaclesRef (gameLoop fr g) = [b] \<and> scoreRef (gameLoop fr g) = scoreRef g + 10 \<and>
         isPlayingRef (gameLoop fr g)"
proof -
  let ?g1 = "g\<lparr>groundRef := map (groundStep (speedRef g)) (groundRef g)\<rparr>"
  let ?g2 = "?g1\<lparr>obstaclesRef := b # rest, scoreRef := scoreRef g + 10,
       gameState := (gameState g)\<lparr>score := scoreRef g + 10\<rparr>\<rparr>"
  let ?loop = "forEach (\<lambda>s. length (obstaclesRef s)) (obstacleStep (now fr) (position p))"
  have nc: "\<not> collides (position p) (position (moveZ (- speedRef ?g1) (obstaclesRef ?g1 ! 0)))"
    using assms(4,5) by simp
  have below: "vz (position (obstaclesRef ?g1 ! 0)) - speedRef ?g1 < -20"
    using assms(4,6) by simp
  have first: "obstacleStep (now fr) (position p) 0 ?g1 = ?g2"
    using obstacleStep_removes [OF nc below, of "now fr"] assms(4) by (simp add: splice1_def)
  have loop: "?loop (length (obstaclesRef g)) 0 ?g1 = ?loop (Suc (length rest)) 1 ?g2"
    using assms(4) first by simp
  have front: "take 1 (obstaclesRef (?loop (length (obstaclesRef g)) 0 ?g1)) = [b]"
    unfolding loop using obstacle_loop_prefix [of 1 1 "now fr" "position p" "Suc (length rest)" ?g2]
    by simp
  have ne: "Suc 0 \<le> length (obstaclesRef (?loop (length (obstaclesRef g)) 0 ?g1))"
    using arg_cong [OF front, of length] by simp
  show "take 1 (obstaclesRef (gameLoop fr g)) = [b]"
    using assms(1,2,3) front ne
    by (simp add: gameLoop_def Let_def createObstacle_def)
  show "obstaclesRef (gameLoop fr g) = [b] \<and> scoreRef (gameLoop fr g) = scoreRef g + 10 \<and>
         isPlayingRef (gameLoop fr g)" if "rest = []" "\<not> randomSpawn fr < 0.02"
  proof -
    have "?loop (Suc (length rest)) 1 ?g2 = ?g2"
      using that(1) by (intro forEach_beyond) simp
    then show ?thesis
      unfolding gameLoop_obstacles [OF assms(1-3) that(2)] loop
      using that(1) assms(2) by simp
  qed
qed








lemma removal_count_arith:
  fixes P s :: real
  assumes "0 < s" "- 20 \<le> P"
  defines "m \<equiv> nat \<lfloor>(P + 20) / s\<rfloor>"
  shows "- 20 \<le> P - real m * s" and "P - real m * s - s < - 20"
    and "(P + 20) / s \<notin> \<int> \<Longrightarrow> Suc m = nat \<lceil>(P + 20) / s\<rceil>"
    and "(P + 20) / s \<in> \<int> \<Longrightarrow> Suc m = nat \<lceil>(P + 20) / s\<rceil> + 1"
proof -
  let ?q = "(P + 20) / s"
  have q0: "0 \<le> ?q" using assms(1,2) by simp
  then have fl0: "0 \<le> \<lfloor>?q\<rfloor>" by simp
  then have m: "real m = of_int \<lfloor>?q\<rfloor>" unfolding m_def by simp
  have "real m \<le> ?q" unfolding m by (rule of_int_floor_le)
  then have "real m * s \<le> P + 20" using assms(1) by (simp add: pos_le_divide_eq)
  then show "- 20 \<le> P - real m * s" by simp
  have "?q < real m + 1" unfolding m by linarith
  then have "P + 20 < (real m + 1) * s" using assms(1) by (simp add: pos_divide_less_eq)
  then show "P - real m * s - s < - 20" by (simp add: algebra_simps)
  show "Suc m = nat \<lceil>?q\<rceil>" if "?q \<notin> \<int>"
  proof -
    have "?q \<noteq> of_int \<lfloor>?q\<rfloor>" using that by (metis Ints_of_int)
    then have "\<lceil>?q\<rceil> = \<lfloor>?q\<rfloor> + 1" by (simp add: ceiling_altdef)
    moreover have "Suc (nat \<lfloor>?q\<rfloor>) = nat (\<lfloor>?q\<rfloor> + 1)" using fl0 by linarith
    ultimately show ?thesis unfolding m_def by (simp only:)
  qed
  show "Suc m = nat \<lceil>?q\<rceil> + 1" if "?q \<in> \<int>"
  proof -
    have "\<lceil>?q\<rceil> = \<lfloor>?q\<rfloor>" using that by (simp add: ceiling_altdef)
    then show ?thesis unfolding m_def using fl0 by simp
  qed
qed


section \<open>The cleanup pass of the logic module at the front of the array\<close>

lemma cleanup_loop_prefix:
  "k \<le> k' \<Longrightarrow>
   take k (obstacles (forEach (\<lambda>s. length (obstacles s)) cleanupStep n k' l)) = take k (obstacles l)"
proof (induction n arbitrary: k' l)
  case 0
  show ?case by simp
next
  case (Suc n)
  show ?case
  proof (cases "k' < length (obstacles l)")
    case False
    then show ?thesis using Suc.IH [of "Suc k'" l] Suc.prems by simp
  next
    case True
    have "take k (obstacles (cleanupStep k' l)) = take k (obstacles l)"
      using True Suc.prems by (simp add: cleanupStep_def award_keeps take_splice1)
    then show ?thesis
      using True Suc.IH [of "Suc k'" "cleanupStep k' l"] Suc.prems by simp
  qed
qed

lemma cleanupObstacles_front:
  assumes "obstacles l = a # rest" "vz (position a) < -20"
  shows "cleanupObstacles l =
     forEach (\<lambda>s. length (obstacles s)) cleanupStep (length rest) 1 (award (l\<lparr>obstacles := rest\<rparr>))"
  using assms by (simp add: cleanupObstacles_def cleanupStep_def splice1_def)

lemma cleanupObstacles_front_keep:
  assumes "obstacles l = a # rest" "\<not> vz (position a) < -20"
  shows "cleanupObstacles l =
     forEach (\<lambda>s. length (obstacles s)) cleanupStep (length rest) 1 l"
  using assms by (simp add: cleanupObstacles_def cleanupStep_def)

lemma cleanupObstacles_single:
  assumes "obstacles l = [a]"
  shows "cleanupObstacles l = (if vz (position a) < -20 then award (l\<lparr>obstacles := []\<rparr>) else l)"
  using assms by (simp add: cleanupObstacles_def cleanupStep_def splice1_def)

lemma cleanupObstacles_front_pair:
  assumes "obstacles l = a # b # rest" "vz (position a) < -20"
  shows "take 1 (obstacles (cleanupObstacles l)) = [b]"
    and "rest = [] \<Longrightarrow> cleanupObstacles l = award (l\<lparr>obstacles := [b]\<rparr>)"
proof -
  have eq: "cleanupObstacles l =
     forEach (\<lambda>s. length (obstacles s)) cleanupStep (Suc (length rest)) 1
       (award (l\<lparr>obstacles := b # rest\<rparr>))"
    using cleanupObstacles_front [OF assms] by simp
  show "take 1 (obstacles (cleanupObstacles l)) = [b]"
    unfolding eq
    using cleanup_loop_prefix [of 1 1 "Suc (length rest)" "award (l\<lparr>obstacles := b # rest\<rparr>)"]
    by (simp add: award_keeps)
  show "cleanupObstacles l = award (l\<lparr>obstacles := [b]\<rparr>)" if "rest = []"
    unfolding eq using that by (simp add: award_keeps)
qed

section \<open>Frames of the logic module with one or two obstacles\<close>

lemma far_behind_no_check:
  assumes "- 18.5 \<le> vz (position p)" "\<forall>ob \<in> set obs. vz (position ob) < -20"
  shows "\<not> checkCollisions p obs"
  using assms
  by (auto simp add: checkCollisions_def list_ex_iff Let_def tolerance_def collisionDistance_def)

lemma other_lane_no_check:
  assumes "1.5 \<le> \<bar>vx (position p) - vx (position ob)\<bar>"
  shows "\<not> checkCollisions p [moveZ d ob]"
  using assms
  by (simp add: checkCollisions_def Let_def tolerance_def collisionDistance_def position_moveZ)

lemma position_updatePlayerMovement:
  "vz (position (updatePlayerMovement ps p)) = vz (position p)"
  "vx (position p) = real_of_int (lane ps) * 2 \<Longrightarrow>
     vx (position (updatePlayerMovement ps p)) = vx (position p)"
  by (simp_all add: updatePlayerMovement_def Let_def)

lemma logic_gameLoop_clear:
  assumes "player l = Some p" "logicIsPlayingRef l"
    "\<not> checkCollisions (updatePlayerMovement ps p) (map (moveZ (- logicSpeedRef l)) (obstacles l))"
  shows "logic_gameLoop ps l =
     updateDifficulty (cleanupObstacles
       ((moveWorld l)\<lparr>player := Some (updatePlayerMovement ps p)\<rparr>))"
  using assms by (simp add: logic_gameLoop_def Let_def moveWorld_def)

lemma award_more:
  "perfectRunRef (award l) = perfectRunRef l + 1"
  "logicScoreRef (award l) =
     logicScoreRef l + 10 + (if (perfectRunRef l + 1) mod 10 = 0 then 50 else 0)"
  by (simp_all add: award_def Let_def pointsPerObstacle_def perfectRunBonus_def)

lemma updateDifficulty_keeps:
  "obstacles (updateDifficulty l) = obstacles l"
  "logicScoreRef (updateDifficulty l) = logicScoreRef l"
  "perfectRunRef (updateDifficulty l) = perfectRunRef l"
  "player (updateDifficulty l) = player l"
  "logicIsPlayingRef (updateDifficulty l) = logicIsPlayingRef l"
  "logicSpeedRef (updateDifficulty l) = min (logicSpeedRef l + 0.0001) 0.5"
  by (simp_all add: updateDifficulty_def speedIncreaseRate_def speedIncrease_def maxSpeed_def)

lemma logic_gameLoop_single:
  assumes "player l = Some p" "logicIsPlayingRef l" "obstacles l = [ob]"
    "\<not> checkCollisions (updatePlayerMovement ps p) [moveZ (- logicSpeedRef l) ob]"
  shows "obstacles (logic_gameLoop ps l) =
      (if vz (position ob) - logicSpeedRef l < -20 then [] else [moveZ (- logicSpeedRef l) ob])"
    and "perfectRunRef (logic_gameLoop ps l) =
      (if vz (position ob) - logicSpeedRef l < -20 then perfectRunRef l + 1 else perfectRunRef l)"
    and "logicScoreRef (logic_gameLoop ps l) =
      (if vz (position ob) - logicSpeedRef l < -20
       then logicScoreRef l + 10 + (if (perfectRunRef l + 1) mod 10 = 0 then 50 else 0)
       else logicScoreRef l)"
    and "player (logic_gameLoop ps l) = Some (updatePlayerMovement ps p)"
    and "logicIsPlayingRef (logic_gameLoop ps l)"
    and "logicSpeedRef (logic_gameLoop ps l) = min (logicSpeedRef l + 0.0001) 0.5"
proof -
  let ?l2 = "(moveWorld l)\<lparr>player := Some (updatePlayerMovement ps p)\<rparr>"
  have nc: "\<not> checkCollisions (updatePlayerMovement ps p)
      (map (moveZ (- logicSpeedRef l)) (obstacles l))"
    using assms(3,4) by simp
  have eq: "logic_gameLoop ps l = updateDifficulty (cleanupObstacles ?l2)"
    using assms(1,2) nc by (rule logic_gameLoop_clear)
  have obs2: "obstacles ?l2 = [moveZ (- logicSpeedRef l) ob]"
    using assms(3) by (simp add: moveWorld_def)
  have f2: "perfectRunRef ?l2 = perfectRunRef l" "logicScoreRef ?l2 = logicScoreRef l"
      "logicSpeedRef ?l2 = logicSpeedRef l" "logicIsPlayingRef ?l2 = logicIsPlayingRef l"
      "player ?l2 = Some (updatePlayerMovement ps p)"
    by (simp_all add: moveWorld_def)
  note cl = cleanupObstacles_single [OF obs2]
  show "obstacles (logic_gameLoop ps l) =
      (if vz (position ob) - logicSpeedRef l < -20 then [] else [moveZ (- logicSpeedRef l) ob])"
    unfolding eq cl using obs2 by (simp add: updateDifficulty_keeps award_keeps position_moveZ)
  show "perfectRunRef (logic_gameLoop ps l) =
      (if vz (position ob) - logicSpeedRef l < -20 then perfectRunRef l + 1 else perfectRunRef l)"
    unfolding eq cl using f2 by (simp add: updateDifficulty_keeps award_more position_moveZ)
  show "logicScoreRef (logic_gameLoop ps l) =
      (if vz (position ob) - logicSpeedRef l < -20
       then logicScoreRef l + 10 + (if (perfectRunRef l + 1) mod 10 = 0 then 50 else 0)
       else logicScoreRef l)"
    unfolding eq cl using f2 by (simp add: updateDifficulty_keeps award_more position_moveZ)
  show "player (logic_gameLoop ps l) = Some (updatePlayerMovement ps p)"
    using assms(1,2) by (rule logic_gameLoop_running(2))
  show "logicIsPlayingRef (logic_gameLoop ps l)"
    using logic_gameLoop_running(3) [OF assms(1,2), of ps] nc by simp
  show "logicSpeedRef (logic_gameLoop ps l) = min (logicSpeedRef l + 0.0001) 0.5"
    using logic_gameLoop_running(4) [OF assms(1,2), of ps] nc by simp
qed

lemma logic_gameLoop_pair:
  assumes "player l = Some p" "logicIsPlayingRef l" "obstacles l = [a, b]"
    "- 18.5 \<le> vz (position p)" "0 \<le> logicSpeedRef l"
    "vz (position a) < -20" "vz (position b) < -20"
  shows "obstacles (logic_gameLoop ps l) = [moveZ (- logicSpeedRef l) b]"
    and "perfectRunRef (logic_gameLoop ps l) = perfectRunRef l + 1"
    and "logicScoreRef (logic_gameLoop ps l) =
       logicScoreRef l + 10 + (if (perfectRunRef l + 1) mod 10 = 0 then 50 else 0)"
    and "player (logic_gameLoop ps l) = Some (updatePlayerMovement ps p)"
    and "logicIsPlayingRef (logic_gameLoop ps l)"
    and "logicSpeedRef (logic_gameLoop ps l) = min (logicSpeedRef l + 0.0001) 0.5"
proof -
  let ?l2 = "(moveWorld l)\<lparr>player := Some (updatePlayerMovement ps p)\<rparr>"
  let ?a = "moveZ (- logicSpeedRef l) a" and ?b = "moveZ (- logicSpeedRef l) b"
  have behind: "\<forall>ob \<in> set (map (moveZ (- logicSpeedRef l)) (obstacles l)). vz (position ob) < -20"
    using assms(3,5,6,7) by (simp add: position_moveZ)
  have nc: "\<not> checkCollisions (updatePlayerMovement ps p)
      (map (moveZ (- logicSpeedRef l)) (obstacles l))"
    using assms(4) behind by (intro far_behind_no_check) (simp_all add: position_updatePlayerMovement)
  have eq: "logic_gameLoop ps l = updateDifficulty (cleanupObstacles ?l2)"
    using assms(1,2) nc by (rule logic_gameLoop_clear)
  have obs2: "obstacles ?l2 = ?a # ?b # []"
    using assms(3) by (simp add: moveWorld_def)
  have below: "vz (position ?a) < -20"
    using assms(5,6) by (simp add: position_moveZ)
  have f2: "perfectRunRef ?l2 = perfectRunRef l" "logicScoreRef ?l2 = logicScoreRef l"
      "logicSpeedRef ?l2 = logicSpeedRef l"
    by (simp_all add: moveWorld_def)
  have cl: "cleanupObstacles ?l2 = award (?l2\<lparr>obstacles := [?b]\<rparr>)"
    using cleanupObstacles_front_pair(2) [OF obs2 below] by simp
  show "obstacles (logic_gameLoop ps l) = [?b]"
    unfolding eq cl by (simp add: updateDifficulty_keeps award_keeps)
  show "perfectRunRef (logic_gameLoop ps l) = perfectRunRef l + 1"
    unfolding eq cl using f2 by (simp add: updateDifficulty_keeps award_more)
  show "logicScoreRef (logic_gameLoop ps l) =
       logicScoreRef l + 10 + (if (perfectRunRef l + 1) mod 10 = 0 then 50 else 0)"
    unfolding eq cl using f2 by (simp add: updateDifficulty_keeps award_more)
  show "player (logic_gameLoop ps l) = Some (updatePlayerMovement ps p)"
    using assms(1,2) by (rule logic_gameLoop_running(2))
  show "logicIsPlayingRef (logic_gameLoop ps l)"
    using logic_gameLoop_running(3) [OF assms(1,2), of ps] nc by simp
  show "logicSpeedRef (logic_gameLoop ps l) = min (logicSpeedRef l + 0.0001) 0.5"
    using logic_gameLoop_running(4) [OF assms(1,2), of ps] nc by simp
qed

section \<open>Two obstacles behind the threshold at the front of the array\<close>

lemma vz_movePlayer: "vz (position (movePlayer tgt jmp p)) = vz (position p)"
  by (simp add: movePlayer_def Let_def)

lemma logic_pair_two_frames:
  assumes "player l = Some p" "logicIsPlayingRef l" "obstacles l = [a, b]"
    "- 18.5 \<le> vz (position p)" "0 \<le> logicSpeedRef l"
    "vz (position a) < -20" "vz (position b) < -20"
  shows "obstacles (logic_gameLoop ps l) = [moveZ (- logicSpeedRef l) b] \<and>
     perfectRunRef (logic_gameLoop ps l) = perfectRunRef l + 1 \<and>
     logicScoreRef (logic_gameLoop ps l) =
       logicScoreRef l + 10 + (if (perfectRunRef l + 1) mod 10 = 0 then 50 else 0) \<and>
     obstacles (logic_gameLoop ps' (logic_gameLoop ps l)) = [] \<and>
     perfectRunRef (logic_gameLoop ps' (logic_gameLoop ps l)) = perfectRunRef l + 2 \<and>
     logicScoreRef (logic_gameLoop ps' (logic_gameLoop ps l)) =
       logicScoreRef l + 10 + (if (perfectRunRef l + 1) mod 10 = 0 then 50 else 0)
         + 10 + (if (perfectRunRef l + 2) mod 10 = 0 then 50 else 0)"
proof -
  let ?l1 = "logic_gameLoop ps l"
  let ?b = "moveZ (- logicSpeedRef l) b"
  let ?p1 = "updatePlayerMovement ps p"
  note one = logic_gameLoop_pair [OF assms, of ps]
  have s1: "0 \<le> logicSpeedRef ?l1" using one(6) assms(5) by simp
  have below: "vz (position ?b) - logicSpeedRef ?l1 < -20"
    using s1 assms(5,7) by (simp add: position_moveZ)
  have nc: "\<not> checkCollisions (updatePlayerMovement ps' ?p1) [moveZ (- logicSpeedRef ?l1) ?b]"
    using assms(4) below
    by (intro far_behind_no_check) (simp_all add: position_updatePlayerMovement position_moveZ)
  note two = logic_gameLoop_single [OF one(4) one(5) one(1) nc]
  have "obstacles (logic_gameLoop ps' ?l1) = []"
    using two(1) below by simp
  moreover have "perfectRunRef (logic_gameLoop ps' ?l1) = perfectRunRef l + 2"
    using two(2) below one(2) by simp
  moreover have "logicScoreRef (logic_gameLoop ps' ?l1) =
       logicScoreRef l + 10 + (if (perfectRunRef l + 1) mod 10 = 0 then 50 else 0)
         + 10 + (if (perfectRunRef l + 2) mod 10 = 0 then 50 else 0)"
    using two(3) below one(2,3) by (simp add: add.assoc)
  ultimately show ?thesis using one(1,2,3) by simp
qed

lemma mono_pair_two_frames:
  assumes "playerRef g = Some q" "isPlayingRef g" "sceneRef g" "obstaclesRef g = [a, b]"
    "- 18.5 \<le> vz (position q)" "0 \<le> speedRef g"
    "vz (position a) < -20" "vz (position b) < -20"
    "\<not> randomSpawn fr < 0.02" "\<not> randomSpawn fr' < 0.02"
  shows "obstaclesRef (gameLoop fr g) = [b] \<and>
     scoreRef (gameLoop fr g) = scoreRef g + 10 \<and>
     obstaclesRef (gameLoop fr' (gameLoop fr g)) = [] \<and>
     scoreRef (gameLoop fr' (gameLoop fr g)) = scoreRef g + 20"
proof -
  let ?g1 = "gameLoop fr g"
  let ?q1 = "movePlayer (playerPosition g) (isJumping g) q"
  have below: "vz (position a) - speedRef g < -20" using assms(6,7) by simp
  have nc: "\<not> collides (position q) (position (moveZ (- speedRef g) a))"
    using assms(5) below by (rule far_behind_no_collision)
  note one = gameLoop_front_pair(2) [OF assms(1,2,3,4) nc below refl assms(9)]
  note run = gameLoop_running [OF assms(1,2,3), of fr]
  have s1: "0 \<le> speedRef ?g1" using run(2) assms(6) by simp
  have below1: "vz (position b) - speedRef ?g1 < -20" using s1 assms(8) by simp
  have z1: "- 18.5 \<le> vz (position ?q1)" using assms(5) by (simp add: vz_movePlayer)
  have nc1: "\<not> collides (position ?q1) (position (moveZ (- speedRef ?g1) b))"
    using z1 below1 by (rule far_behind_no_collision)
  have pl1: "isPlayingRef ?g1" and ob1: "obstaclesRef ?g1 = [b]" using one by simp_all
  note two = gameLoop_single [OF run(3) pl1 run(5) assms(10) ob1 nc1]
  show ?thesis
    using one two(1,2) below1 by simp
qed

text \<open>
  Claim C10, as amended. When the obstacles at indices 0 and 1 are both behind -20 at the
  start of a cleanup pass of the logic module, the pass removes and scores the first and
  leaves the second at the front of the array; a pass that finds an obstacle behind -20 at
  index 0 removes and scores it and goes on at index 1. With exactly these two obstacles
  and a player that is not near them, the first frame leaves the second obstacle and
  counts one removal, the next frame removes it and counts the second. The monolithic
  loop does the same: the first frame removes the first obstacle for 10 points and skips
  the second, the next frame removes the second for 10 more.
\<close>

theorem splice_skips_second:
  "(obstacles l = a # b # rest \<and> vz (position a) < -20 \<and> vz (position b) < -20 \<longrightarrow>
      take 1 (obstacles (cleanupObstacles l)) = [b] \<and>
      (rest = [] \<longrightarrow>
         obstacles (cleanupObstacles l) = [b] \<and>
         perfectRunRef (cleanupObstacles l) = perfectRunRef l + 1 \<and>
         logicScoreRef (cleanupObstacles l) =
           logicScoreRef l + 10 + (if (perfectRunRef l + 1) mod 10 = 0 then 50 else 0))) \<and>
   (obstacles l' = c # rest' \<and> vz (position c) < -20 \<longrightarrow>
      cleanupObstacles l' =
        forEach (\<lambda>s. length (obstacles s)) cleanupStep (length rest') 1
          (award (l'\<lparr>obstacles := rest'\<rparr>))) \<and>
   (player l = Some p \<and> logicIsPlayingRef l \<and> obstacles l = [a, b] \<and>
    - 18.5 \<le> vz (position p) \<and> 0 \<le> logicSpeedRef l \<and>
    vz (position a) < -20 \<and> vz (position b) < -20 \<longrightarrow>
      obstacles (logic_gameLoop ps l) = [moveZ (- logicSpeedRef l) b] \<and>
      perfectRunRef (logic_gameLoop ps l) = perfectRunRef l + 1 \<and>
      logicScoreRef (logic_gameLoop ps l) =
        logicScoreRef l + 10 + (if (perfectRunRef l + 1) mod 10 = 0 then 50 else 0) \<and>
      obstacles (logic_gameLoop ps' (logic_gameLoop ps l)) = [] \<and>
      perfectRunRef (logic_gameLoop ps' (logic_gameLoop ps l)) = perfectRunRef l + 2 \<and>
      logicScoreRef (logic_gameLoop ps' (logic_gameLoop ps l)) =
        logicScoreRef l + 10 + (if (perfectRunRef l + 1) mod 10 = 0 then 50 else 0)
          + 10 + (if (perfectRunRef l + 2) mod 10 = 0 then 50 else 0)) \<and>
   (playerRef g = Some q \<and> isPlayingRef g \<and> sceneRef g \<and> obstaclesRef g = a # b # rest \<and>
    - 18.5 \<le> vz (position q) \<and> 0 \<le> speedRef g \<and>
    vz (position a) < -20 \<and> vz (position b) < -20 \<longrightarrow>
      take 1 (obstaclesRef (gameLoop fr g)) = [b] \<and>
      (rest = [] \<and> \<not> randomSpawn fr < 0.02 \<and> \<not> randomSpawn fr' < 0.02 \<longrightarrow>
         obstaclesRef (gameLoop fr g) = [b] \<and>
         scoreRef (gameLoop fr g) = scoreRef g + 10 \<and>
         obstaclesRef (gameLoop fr' (gameLoop fr g)) = [] \<and>
         scoreRef (gameLoop fr' (gameLoop fr g)) = scoreRef g + 20))"
proof -
  have A: "take 1 (obstacles (cleanupObstacles l)) = [b] \<and>
      (rest = [] \<longrightarrow>
         obstacles (cleanupObstacles l) = [b] \<and>
         perfectRunRef (cleanupObstacles l) = perfectRunRef l + 1 \<and>
         logicScoreRef (cleanupObstacles l) =
           logicScoreRef l + 10 + (if (perfectRunRef l + 1) mod 10 = 0 then 50 else 0))"
    if h: "obstacles l = a # b # rest \<and> vz (position a) < -20 \<and> vz (position b) < -20"
  proof -
    from h have o: "obstacles l = a # b # rest" and a: "vz (position a) < -20" by simp_all
    note fp = cleanupObstacles_front_pair [OF o a]
    have "obstacles (cleanupObstacles l) = [b] \<and>
         perfectRunRef (cleanupObstacles l) = perfectRunRef l + 1 \<and>
         logicScoreRef (cleanupObstacles l) =
           logicScoreRef l + 10 + (if (perfectRunRef l + 1) mod 10 = 0 then 50 else 0)"
      if "rest = []"
      unfolding fp(2) [OF that] by (simp add: award_keeps award_more)
    then show ?thesis using fp(1) by blast
  qed
  have B: "cleanupObstacles l' =
        forEach (\<lambda>s. length (obstacles s)) cleanupStep (length rest') 1
          (award (l'\<lparr>obstacles := rest'\<rparr>))"
    if "obstacles l' = c # rest' \<and> vz (position c) < -20"
    using that cleanupObstacles_front [of l' c rest'] by blast
  have C: "obstacles (logic_gameLoop ps l) = [moveZ (- logicSpeedRef l) b] \<and>
      perfectRunRef (logic_gameLoop ps l) = perfectRunRef l + 1 \<and>
      logicScoreRef (logic_gameLoop ps l) =
        logicScoreRef l + 10 + (if (perfectRunRef l + 1) mod 10 = 0 then 50 else 0) \<and>
      obstacles (logic_gameLoop ps' (logic_gameLoop ps l)) = [] \<and>
      perfectRunRef (logic_gameLoop ps' (logic_gameLoop ps l)) = perfectRunRef l + 2 \<and>
      logicScoreRef (logic_gameLoop ps' (logic_gameLoop ps l)) =
        logicScoreRef l + 10 + (if (perfectRunRef l + 1) mod 10 = 0 then 50 else 0)
          + 10 + (if (perfectRunRef l + 2) mod 10 = 0 then 50 else 0)"
    if "player l = Some p \<and> logicIsPlayingRef l \<and> obstacles l = [a, b] \<and>
      - 18.5 \<le> vz (position p) \<and> 0 \<le> logicSpeedRef l \<and>
      vz (position a) < -20 \<and> vz (position b) < -20"
    using that logic_pair_two_frames [of l p a b ps ps'] by blast
  have D: "take 1 (obstaclesRef (gameLoop fr g)) = [b] \<and>
      (rest = [] \<and> \<not> randomSpawn fr < 0.02 \<and> \<not> randomSpawn fr' < 0.02 \<longrightarrow>
         obstaclesRef (gameLoop fr g) = [b] \<and>
         scoreRef (gameLoop fr g) = scoreRef g + 10 \<and>
         obstaclesRef (gameLoop fr' (gameLoop fr g)) = [] \<and>
         scoreRef (gameLoop fr' (gameLoop fr g)) = scoreRef g + 20)"
    if h: "playerRef g = Some q \<and> isPlayingRef g \<and> sceneRef g \<and> obstaclesRef g = a # b # rest \<and>
      - 18.5 \<le> vz (position q) \<and> 0 \<le> speedRef g \<and>
      vz (position a) < -20 \<and> vz (position b) < -20"
  proof -
    from h have below: "vz (position a) - speedRef g < -20" by simp
    have nc: "\<not> collides (position q) (position (moveZ (- speedRef g) a))"
      using h below far_behind_no_collision [of "position q" a "speedRef g"] by blast
    have t: "take 1 (obstaclesRef (gameLoop fr g)) = [b]"
      using h nc below gameLoop_front_pair(1) [of g q a b rest fr] by blast
    have "obstaclesRef (gameLoop fr g) = [b] \<and>
         scoreRef (gameLoop fr g) = scoreRef g + 10 \<and>
         obstaclesRef (gameLoop fr' (gameLoop fr g)) = [] \<and>
         scoreRef (gameLoop fr' (gameLoop fr g)) = scoreRef g + 20"
      if "rest = [] \<and> \<not> randomSpawn fr < 0.02 \<and> \<not> randomSpawn fr' < 0.02"
      using that h mono_pair_two_frames [of g q a b fr fr'] by blast
    then show ?thesis using t by blast
  qed
  show ?thesis using A B C D by blast
qed

text \<open>
  With three obstacles behind the threshold, the obstacles at indices 1 and 2 are a
  consecutive pair of which the pass keeps the first and removes the second.
\<close>

theorem splice_skips_second_counterexample:
  "obstacles tripleScene ! 1 = box 0 0.5 (-20.3) \<and>
   obstacles tripleScene ! 2 = box 2 0.5 (-20.1) \<and>
   vz (position (obstacles tripleScene ! 1)) < -20 \<and>
   vz (position (obstacles tripleScene ! 2)) < -20 \<and>
   obstacles (cleanupObstacles tripleScene) = [box 0 0.5 (-20.3)]"
  by (simp add: tripleScene_def logic_startGame_def useGameLogic_def cleanupObstacles_def
      cleanupStep_def award_def splice1_def box_def Vector3_def Let_def)

section \<open>Frames of the logic module at a held speed\<close>

lemma logic_holdSpeed_fields:
  "logicSpeedRef (logic_holdSpeed s l) = s"
  "player (logic_holdSpeed s l) = player l"
  "logicIsPlayingRef (logic_holdSpeed s l) = logicIsPlayingRef l"
  "obstacles (logic_holdSpeed s l) = obstacles l"
  "logicScoreRef (logic_holdSpeed s l) = logicScoreRef l"
  "perfectRunRef (logic_holdSpeed s l) = perfectRunRef l"
  by (simp_all add: logic_holdSpeed_def)

lemma logic_framesAtSpeed_append:
  "logic_framesAtSpeed s (pss @ pss') l = logic_framesAtSpeed s pss' (logic_framesAtSpeed s pss l)"
  by (induction pss arbitrary: l) simp_all

lemma logic_heldFrame:
  assumes "player l = Some p" "logicIsPlayingRef l" "obstacles l = [ob]"
    and "vx (position p) = real_of_int (lane ps) * 2"
    and "1.5 \<le> \<bar>vx (position p) - vx (position ob)\<bar>"
  shows "\<exists>p'. player (logic_gameLoop ps (logic_holdSpeed s l)) = Some p' \<and>
      vx (position p') = vx (position p)"
    and "logicIsPlayingRef (logic_gameLoop ps (logic_holdSpeed s l))"
    and "obstacles (logic_gameLoop ps (logic_holdSpeed s l)) =
      (if vz (position ob) - s < -20 then [] else [moveZ (- s) ob])"
    and "perfectRunRef (logic_gameLoop ps (logic_holdSpeed s l)) =
      (if vz (position ob) - s < -20 then perfectRunRef l + 1 else perfectRunRef l)"
    and "logicScoreRef (logic_gameLoop ps (logic_holdSpeed s l)) =
      (if vz (position ob) - s < -20
       then logicScoreRef l + 10 + (if (perfectRunRef l + 1) mod 10 = 0 then 50 else 0)
       else logicScoreRef l)"
proof -
  let ?h = "logic_holdSpeed s l"
  have h: "player ?h = Some p" "logicIsPlayingRef ?h" "obstacles ?h = [ob]"
    using assms(1-3) by (simp_all add: logic_holdSpeed_fields)
  have "1.5 \<le> \<bar>vx (position (updatePlayerMovement ps p)) - vx (position ob)\<bar>"
    using assms(4,5) by (simp add: position_updatePlayerMovement)
  then have nc: "\<not> checkCollisions (updatePlayerMovement ps p) [moveZ (- logicSpeedRef ?h) ob]"
    by (rule other_lane_no_check)
  note single = logic_gameLoop_single [OF h nc]
  show "\<exists>p'. player (logic_gameLoop ps ?h) = Some p' \<and> vx (position p') = vx (position p)"
    using single(4) assms(4) by (simp add: position_updatePlayerMovement)
  show "logicIsPlayingRef (logic_gameLoop ps ?h)" by (rule single(5))
  show "obstacles (logic_gameLoop ps ?h) =
      (if vz (position ob) - s < -20 then [] else [moveZ (- s) ob])"
    using single(1) by (simp add: logic_holdSpeed_fields)
  show "perfectRunRef (logic_gameLoop ps ?h) =
      (if vz (position ob) - s < -20 then perfectRunRef l + 1 else perfectRunRef l)"
    using single(2) by (simp add: logic_holdSpeed_fields)
  show "logicScoreRef (logic_gameLoop ps ?h) =
      (if vz (position ob) - s < -20
       then logicScoreRef l + 10 + (if (perfectRunRef l + 1) mod 10 = 0 then 50 else 0)
       else logicScoreRef l)"
    using single(3) by (simp add: logic_holdSpeed_fields)
qed

lemma logic_framesAtSpeed_approach:
  assumes "0 < s"
  shows "player l = Some p \<Longrightarrow> logicIsPlayingRef l \<Longrightarrow> obstacles l = [ob] \<Longrightarrow>
     \<forall>ps \<in> set pss. real_of_int (lane ps) * 2 = vx (position p) \<Longrightarrow>
     1.5 \<le> \<bar>vx (position p) - vx (position ob)\<bar> \<Longrightarrow>
     - 20 \<le> vz (position ob) - real (length pss) * s \<Longrightarrow>
     (\<exists>p' ob'. player (logic_framesAtSpeed s pss l) = Some p' \<and>
        vx (position p') = vx (position p) \<and>
        obstacles (logic_framesAtSpeed s pss l) = [ob'] \<and>
        position ob' = (position ob)\<lparr>vz := vz (position ob) - real (length pss) * s\<rparr>) \<and>
     logicIsPlayingRef (logic_framesAtSpeed s pss l) \<and>
     perfectRunRef (logic_framesAtSpeed s pss l) = perfectRunRef l \<and>
     logicScoreRef (logic_framesAtSpeed s pss l) = logicScoreRef l"
proof (induction pss arbitrary: l p ob)
  case Nil
  then show ?case by simp
next
  case (Cons ps pss)
  let ?l1 = "logic_gameLoop ps (logic_holdSpeed s l)"
  from Cons.prems(4) have ln: "vx (position p) = real_of_int (lane ps) * 2"
    and lns: "\<forall>ps \<in> set pss. real_of_int (lane ps) * 2 = vx (position p)" by simp_all
  have "0 \<le> real (length pss) * s" using assms by simp
  with Cons.prems(6) have far: "\<not> vz (position ob) - s < -20"
    by (simp add: algebra_simps)
  note step = logic_heldFrame [OF Cons.prems(1,2,3) ln Cons.prems(5), of s]
  from step(1) obtain p1 where p1: "player ?l1 = Some p1"
    and x1: "vx (position p1) = vx (position p)" by blast
  let ?ob1 = "moveZ (- s) ob"
  have ob1: "obstacles ?l1 = [?ob1]" using step(3) far by simp
  have z1: "position ?ob1 = (position ob)\<lparr>vz := vz (position ob) - s\<rparr>"
    by (simp add: position_moveZ)
  have lns1: "\<forall>ps \<in> set pss. real_of_int (lane ps) * 2 = vx (position p1)"
    using lns x1 by simp
  have sep1: "1.5 \<le> \<bar>vx (position p1) - vx (position ?ob1)\<bar>"
    using x1 z1 Cons.prems(5) by simp
  have far1: "- 20 \<le> vz (position ?ob1) - real (length pss) * s"
    using z1 Cons.prems(6) by (simp add: algebra_simps)
  note IH = Cons.IH [OF p1 step(2) ob1 lns1 sep1 far1]
  have pos: "(position ?ob1)\<lparr>vz := vz (position ?ob1) - real (length pss) * s\<rparr> =
      (position ob)\<lparr>vz := vz (position ob) - real (length (ps # pss)) * s\<rparr>"
    using z1 by (simp add: algebra_simps)
  have keep: "perfectRunRef ?l1 = perfectRunRef l" "logicScoreRef ?l1 = logicScoreRef l"
    using step(4,5) far by simp_all
  show ?case
    using IH x1 keep unfolding pos by simp
qed

lemma logic_gameLoop_quiet:
  assumes "obstacles l = []"
  shows "obstacles (logic_gameLoop ps l) = [] \<and>
     logicScoreRef (logic_gameLoop ps l) = logicScoreRef l \<and>
     perfectRunRef (logic_gameLoop ps l) = perfectRunRef l"
  using assms
  by (simp add: logic_gameLoop_def Let_def moveWorld_def checkCollisions_def cleanupObstacles_def
      updateDifficulty_def split: option.split)

lemma logic_framesAtSpeed_quiet:
  "obstacles l = [] \<Longrightarrow>
   obstacles (logic_framesAtSpeed s pss l) = [] \<and>
   logicScoreRef (logic_framesAtSpeed s pss l) = logicScoreRef l \<and>
   perfectRunRef (logic_framesAtSpeed s pss l) = perfectRunRef l"
proof (induction pss arbitrary: l)
  case Nil
  then show ?case by simp
next
  case (Cons ps pss)
  have "obstacles (logic_holdSpeed s l) = []"
    using Cons.prems by (simp add: logic_holdSpeed_fields)
  from logic_gameLoop_quiet [OF this, of ps]
  show ?case using Cons.IH [of "logic_gameLoop ps (logic_holdSpeed s l)"]
    by (simp add: logic_holdSpeed_fields)
qed

lemma logic_framesAtSpeed_removal:
  assumes s: "0 < s"
    and l: "player l = Some p" "logicIsPlayingRef l" "obstacles l = [ob]"
    and lanes: "\<forall>ps \<in> set pss. real_of_int (lane ps) * 2 = vx (position p)"
    and sep: "1.5 \<le> \<bar>vx (position p) - vx (position ob)\<bar>"
    and P: "- 20 \<le> vz (position ob)"
  shows "length pss \<le> nat \<lfloor>(vz (position ob) + 20) / s\<rfloor> \<Longrightarrow>
      (\<exists>ob'. obstacles (logic_framesAtSpeed s pss l) = [ob'] \<and>
         position ob' = (position ob)\<lparr>vz := vz (position ob) - real (length pss) * s\<rparr>) \<and>
      logicScoreRef (logic_framesAtSpeed s pss l) = logicScoreRef l \<and>
      perfectRunRef (logic_framesAtSpeed s pss l) = perfectRunRef l"
    and "nat \<lfloor>(vz (position ob) + 20) / s\<rfloor> < length pss \<Longrightarrow>
      obstacles (logic_framesAtSpeed s pss l) = [] \<and>
      perfectRunRef (logic_framesAtSpeed s pss l) = perfectRunRef l + 1 \<and>
      logicScoreRef (logic_framesAtSpeed s pss l) =
        logicScoreRef l + 10 + (if (perfectRunRef l + 1) mod 10 = 0 then 50 else 0)"
proof -
  let ?P = "vz (position ob)"
  let ?m = "nat \<lfloor>(?P + 20) / s\<rfloor>"
  note ar = removal_count_arith [OF s P]
  show "(\<exists>ob'. obstacles (logic_framesAtSpeed s pss l) = [ob'] \<and>
         position ob' = (position ob)\<lparr>vz := ?P - real (length pss) * s\<rparr>) \<and>
      logicScoreRef (logic_framesAtSpeed s pss l) = logicScoreRef l \<and>
      perfectRunRef (logic_framesAtSpeed s pss l) = perfectRunRef l" if "length pss \<le> ?m"
  proof -
    have "real (length pss) * s \<le> real ?m * s"
      using that s by simp
    then have "- 20 \<le> ?P - real (length pss) * s" using ar(1) by linarith
    from logic_framesAtSpeed_approach [OF s l lanes sep this] show ?thesis by blast
  qed
  show "obstacles (logic_framesAtSpeed s pss l) = [] \<and>
      perfectRunRef (logic_framesAtSpeed s pss l) = perfectRunRef l + 1 \<and>
      logicScoreRef (logic_framesAtSpeed s pss l) =
        logicScoreRef l + 10 + (if (perfectRunRef l + 1) mod 10 = 0 then 50 else 0)"
    if "?m < length pss"
  proof -
    let ?a = "take ?m pss" and ?ps = "pss ! ?m" and ?c = "drop (Suc ?m) pss"
    have split: "pss = ?a @ ?ps # ?c"
      using that by (simp add: id_take_nth_drop [symmetric])
    have qa: "\<forall>ps \<in> set ?a. real_of_int (lane ps) * 2 = vx (position p)"
      using lanes by (auto dest: in_set_takeD)
    have qf: "real_of_int (lane ?ps) * 2 = vx (position p)" using lanes that by simp
    have la: "length ?a = ?m" using that by simp
    let ?l1 = "logic_framesAtSpeed s ?a l"
    have "- 20 \<le> ?P - real (length ?a) * s" unfolding la by (rule ar(1))
    from logic_framesAtSpeed_approach [OF s l qa sep this]
    obtain p1 ob1 where p1: "player ?l1 = Some p1" and x1: "vx (position p1) = vx (position p)"
      and ob1: "obstacles ?l1 = [ob1]"
      and z1: "position ob1 = (position ob)\<lparr>vz := ?P - real ?m * s\<rparr>"
      and pl1: "logicIsPlayingRef ?l1"
      and k1: "perfectRunRef ?l1 = perfectRunRef l" "logicScoreRef ?l1 = logicScoreRef l"
      unfolding la by blast
    have ln1: "vx (position p1) = real_of_int (lane ?ps) * 2" using x1 qf by simp
    have sep1: "1.5 \<le> \<bar>vx (position p1) - vx (position ob1)\<bar>" using x1 z1 sep by simp
    have below: "vz (position ob1) - s < -20" using z1 ar(2) by simp
    let ?l2 = "logic_gameLoop ?ps (logic_holdSpeed s ?l1)"
    note rm = logic_heldFrame [OF p1 pl1 ob1 ln1 sep1, of s]
    have o2: "obstacles ?l2 = []" using rm(3) below by simp
    have "obstacles (logic_framesAtSpeed s ?c ?l2) = [] \<and>
        logicScoreRef (logic_framesAtSpeed s ?c ?l2) = logicScoreRef ?l2 \<and>
        perfectRunRef (logic_framesAtSpeed s ?c ?l2) = perfectRunRef ?l2"
      using o2 by (rule logic_framesAtSpeed_quiet)
    moreover have "logic_framesAtSpeed s pss l = logic_framesAtSpeed s ?c ?l2"
      by (subst split) (simp add: logic_framesAtSpeed_append)
    ultimately show ?thesis using rm(4,5) below k1 by simp
  qed
qed

section \<open>The number of frames until an obstacle is removed\<close>



theorem splice_skips_second_witness:
  "obstacles pairLogic = box (-2) 0.5 (-20.5) # box 0 0.5 (-20.3) # [] \<and>
   vz (position (box (-2) 0.5 (-20.5))) < -20 \<and> vz (position (box 0 0.5 (-20.3))) < -20 \<and>
   player pairLogic = Some (box 0 0 0) \<and> logicIsPlayingRef pairLogic \<and>
   - 18.5 \<le> vz (position (box 0 0 0)) \<and> 0 \<le> logicSpeedRef pairLogic \<and>
   obstacles (cleanupObstacles pairLogic) = [box 0 0.5 (-20.3)] \<and>
   obstacles (logic_gameLoop stillPlayer (logic_gameLoop stillPlayer pairLogic)) = [] \<and>
   perfectRunRef (logic_gameLoop stillPlayer (logic_gameLoop stillPlayer pairLogic)) =
     perfectRunRef pairLogic + 2 \<and>
   obstacles (cleanupObstacles pairLogic) = box 0 0.5 (-20.3) # [] \<and>
   cleanupObstacles (cleanupObstacles pairLogic) =
     forEach (\<lambda>s. length (obstacles s)) cleanupStep (length ([] :: mesh list)) 1
       (award ((cleanupObstacles pairLogic)\<lparr>obstacles := []\<rparr>)) \<and>
   playerRef pairScene = Some (box 0 0 0) \<and> isPlayingRef pairScene \<and> sceneRef pairScene \<and>
   obstaclesRef pairScene = box (-2) 0.5 (-20.5) # box 0 0.5 (-20.3) # [] \<and>
   0 \<le> speedRef pairScene \<and>
   \<not> randomSpawn quietFrame < 0.02 \<and>
   obstaclesRef (gameLoop quietFrame pairScene) = [box 0 0.5 (-20.3)] \<and>
   scoreRef (gameLoop quietFrame pairScene) = scoreRef pairScene + 10 \<and>
   obstaclesRef (gameLoop quietFrame (gameLoop quietFrame pairScene)) = [] \<and>
   scoreRef (gameLoop quietFrame (gameLoop quietFrame pairScene)) = scoreRef pairScene + 20"
proof -
  have h1: "obstacles pairLogic = box (-2) 0.5 (-20.5) # box 0 0.5 (-20.3) # [] \<and>
      player pairLogic = Some (box 0 0 0) \<and> logicIsPlayingRef pairLogic \<and>
      0 \<le> logicSpeedRef pairLogic"
    by (simp add: pairLogic_def logic_startGame_def useGameLogic_def baseSpeed_def)
  have h2: "vz (position (box (-2) 0.5 (-20.5))) < -20 \<and> vz (position (box 0 0.5 (-20.3))) < -20 \<and>
      - 18.5 \<le> vz (position (box 0 0 0))"
    by (simp add: box_def Vector3_def)
  have h3: "playerRef pairScene = Some (box 0 0 0) \<and> isPlayingRef pairScene \<and> sceneRef pairScene \<and>
      obstaclesRef pairScene = box (-2) 0.5 (-20.5) # box 0 0.5 (-20.3) # [] \<and>
      0 \<le> speedRef pairScene"
    by (simp add: pairScene_def startGame_def initializeScene_def box_def Vector3_def)
  have h4: "\<not> randomSpawn quietFrame < 0.02"
    by (simp add: quietFrame_def)
  note w = splice_skips_second [where l = pairLogic and a = "box (-2) 0.5 (-20.5)"
      and b = "box 0 0.5 (-20.3)" and rest = "[]" and p = "box 0 0 0"
      and ps = stillPlayer and ps' = stillPlayer
      and l' = "cleanupObstacles pairLogic" and c = "box 0 0.5 (-20.3)" and rest' = "[]"
      and g = pairScene and q = "box 0 0 0" and fr = quietFrame and fr' = quietFrame]
  have one: "obstacles (cleanupObstacles pairLogic) = [box 0 0.5 (-20.3)]"
    using w h1 h2 by blast
  have two: "cleanupObstacles (cleanupObstacles pairLogic) =
     forEach (\<lambda>s. length (obstacles s)) cleanupStep (length ([] :: mesh list)) 1
       (award ((cleanupObstacles pairLogic)\<lparr>obstacles := []\<rparr>))"
    using w one h2 by blast
  have three: "obstacles (logic_gameLoop stillPlayer (logic_gameLoop stillPlayer pairLogic)) = [] \<and>
      perfectRunRef (logic_gameLoop stillPlayer (logic_gameLoop stillPlayer pairLogic)) =
        perfectRunRef pairLogic + 2"
    using w h1 h2 by blast
  have four: "obstaclesRef (gameLoop quietFrame pairScene) = [box 0 0.5 (-20.3)] \<and>
      scoreRef (gameLoop quietFrame pairScene) = scoreRef pairScene + 10 \<and>
      obstaclesRef (gameLoop quietFrame (gameLoop quietFrame pairScene)) = [] \<and>
      scoreRef (gameLoop quietFrame (gameLoop quietFrame pairScene)) = scoreRef pairScene + 20"
    using w h2 h3 h4 by blast
  show ?thesis using h1 h2 h3 h4 one two three four by blast
qed

section \<open>The obstacle at the front of the array\<close>










section \<open>The logic module on a spaced array\<close>









lemma logic_gameLoop_playing: "logicIsPlayingRef (logic_gameLoop ps l) \<Longrightarrow> logicIsPlayingRef l"
  by (cases "player l = None \<or> \<not> logicIsPlayingRef l") (auto simp add: logic_gameLoop_idle)


section \<open>Score and removals over frames of the logic module\<close>




section \<open>An obstacle the loop does not visit\<close>

lemma logic_declares_iff:
  assumes "player l = Some q \<and> logicIsPlayingRef l"
  shows "\<not> logicIsPlayingRef (logic_gameLoop ps l) \<longleftrightarrow>
     (\<exists>ob \<in> set (obstacles l).
        \<bar>vx (position (updatePlayerMovement ps q)) - vx (position ob)\<bar> < 1.5 \<and>
        \<bar>vz (position (updatePlayerMovement ps q)) - (vz (position ob) - logicSpeedRef l)\<bar> < 1.5 \<and>
        vy (position (updatePlayerMovement ps q)) < 2)"
proof -
  have "\<not> logicIsPlayingRef (logic_gameLoop ps l) \<longleftrightarrow>
      checkCollisions (updatePlayerMovement ps q) (map (moveZ (- logicSpeedRef l)) (obstacles l))"
    using assms logic_gameLoop_running(3) [of l q ps] by simp
  then show ?thesis
    by (simp add: checkCollisions_def list_ex_iff tolerance_def collisionDistance_def
        jumpSafeHeight_def Let_def position_moveZ)
qed

text \<open>
  Claim C1. In the logic module a frame ends the session exactly when some obstacle of the
  array meets the three conditions (closer than 1.5 to the player in x, closer than 1.5 in
  z, player below height 2) on the positions that the frame has just computed. The loop of
  the monolithic component does not reach every obstacle. In \<open>skipScene\<close> the first
  obstacle scrolls behind -20 and is spliced out of the array; the loop passes over the
  second one, which meets the three conditions before and after its scroll, and the frame
  declares no collision: the session plays on, the player rises to 2.1, 10 is scored for
  the first obstacle. Nine frames later the run is still going, and that obstacle is
  behind the player.
\<close>

theorem skipped_obstacle_undeclared:
  "(player l = Some q \<and> logicIsPlayingRef l \<longrightarrow>
      (\<not> logicIsPlayingRef (logic_gameLoop ps l) \<longleftrightarrow>
         (\<exists>ob \<in> set (obstacles l).
            \<bar>vx (position (updatePlayerMovement ps q)) - vx (position ob)\<bar> < 1.5 \<and>
            \<bar>vz (position (updatePlayerMovement ps q)) - (vz (position ob) - logicSpeedRef l)\<bar> < 1.5 \<and>
            vy (position (updatePlayerMovement ps q)) < 2))) \<and>
   isPlayingRef skipScene \<and>
   playerRef skipScene = Some (box 1.458 1.8 0) \<and>
   obstaclesRef skipScene = [box 2 0.5 (-19.9), box 0 0.5 0.05] \<and>
   speedRef skipScene = 0.2 \<and>
   \<bar>vx (position (box 1.458 1.8 0)) - vx (position (box 0 0.5 0.05))\<bar> < 1.5 \<and>
   \<bar>vz (position (box 1.458 1.8 0)) - vz (position (box 0 0.5 0.05))\<bar> < 1.5 \<and>
   \<bar>vz (position (box 1.458 1.8 0)) - (vz (position (box 0 0.5 0.05)) - 0.2)\<bar> < 1.5 \<and>
   vy (position (box 1.458 1.8 0)) < 2 \<and>
   checkCollisions (box 1.458 1.8 0) (obstaclesRef skipScene) \<and>
   isPlayingRef (gameLoop quietFrame skipScene) \<and>
   \<not> isGameOver (gameState (gameLoop quietFrame skipScene)) \<and>
   obstaclesRef (gameLoop quietFrame skipScene) = [box 0 0.5 0.05] \<and>
   scoreRef (gameLoop quietFrame skipScene) = 10 \<and>
   playerRef (gameLoop quietFrame skipScene) = Some (box 1.3122 2.1 0) \<and>
   isPlayingRef (frames (replicate 9 quietFrame) skipScene) \<and>
   \<not> isGameOver (gameState (frames (replicate 9 quietFrame) skipScene)) \<and>
   obstaclesRef (frames (replicate 9 quietFrame) skipScene) = [box 0 0.5 (-1.5536)]"
proof -
  note ev = gameLoop_def skipScene_def quietFrame_def startGame_def initializeScene_def
      obstacleStep_def scaleIn_def moveZ_def box_def Vector3_def collides_def Let_def
      createObstacle_def lanes_def movePlayer_def splice1_def
  have a: "isPlayingRef skipScene \<and>
      playerRef skipScene = Some (box 1.458 1.8 0) \<and>
      obstaclesRef skipScene = [box 2 0.5 (-19.9), box 0 0.5 0.05] \<and>
      speedRef skipScene = 0.2"
    by (simp add: ev)
  have b: "\<bar>vx (position (box 1.458 1.8 0)) - vx (position (box 0 0.5 0.05))\<bar> < 1.5 \<and>
      \<bar>vz (position (box 1.458 1.8 0)) - vz (position (box 0 0.5 0.05))\<bar> < 1.5 \<and>
      \<bar>vz (position (box 1.458 1.8 0)) - (vz (position (box 0 0.5 0.05)) - 0.2)\<bar> < 1.5 \<and>
      vy (position (box 1.458 1.8 0)) < 2"
    by (simp add: box_def Vector3_def)
  have c: "checkCollisions (box 1.458 1.8 0) (obstaclesRef skipScene)"
    by (simp add: ev checkCollisions_def tolerance_def collisionDistance_def jumpSafeHeight_def)
  have d: "isPlayingRef (gameLoop quietFrame skipScene) \<and>
      \<not> isGameOver (gameState (gameLoop quietFrame skipScene)) \<and>
      obstaclesRef (gameLoop quietFrame skipScene) = [box 0 0.5 0.05] \<and>
      scoreRef (gameLoop quietFrame skipScene) = 10 \<and>
      playerRef (gameLoop quietFrame skipScene) = Some (box 1.3122 2.1 0)"
    by (simp add: ev)
  have e: "isPlayingRef (frames (replicate 9 quietFrame) skipScene) \<and>
      \<not> isGameOver (gameState (frames (replicate 9 quietFrame) skipScene)) \<and>
      obstaclesRef (frames (replicate 9 quietFrame) skipScene) = [box 0 0.5 (-1.5536)]"
    by (simp add: ev eval_nat_numeral)
  show ?thesis
    using logic_declares_iff [of l q ps] a b c d e by blast
qed

theorem skipped_obstacle_undeclared_witness:
  "player jumpScene = Some (box 0 1.8 0) \<and> logicIsPlayingRef jumpScene \<and>
   \<not> logicIsPlayingRef (logic_gameLoop stillPlayer jumpScene) \<and>
   playerRef skipScene \<noteq> None \<and> sceneRef skipScene \<and> isPlayingRef skipScene \<and>
   isPlayingRef (gameLoop quietFrame skipScene) \<and>
   scoreRef (gameLoop quietFrame skipScene) = 10"
proof -
  have h: "player jumpScene = Some (box 0 1.8 0) \<and> logicIsPlayingRef jumpScene \<and>
      obstacles jumpScene = [box 0 0.5 0.2] \<and> logicSpeedRef jumpScene = 0.2"
    by (simp add: jumpScene_def logic_startGame_def useGameLogic_def baseSpeed_def)
  have c: "\<bar>vx (position (updatePlayerMovement stillPlayer (box 0 1.8 0))) - vx (position (box 0 0.5 0.2))\<bar> < 1.5 \<and>
      \<bar>vz (position (updatePlayerMovement stillPlayer (box 0 1.8 0))) -
          (vz (position (box 0 0.5 0.2)) - logicSpeedRef jumpScene)\<bar> < 1.5 \<and>
      vy (position (updatePlayerMovement stillPlayer (box 0 1.8 0))) < 2"
    using h by (simp add: updatePlayerMovement_def stillPlayer_def box_def Vector3_def Let_def
        laneChangeSpeed_def fallSpeed_def)
  have g: "playerRef skipScene \<noteq> None \<and> sceneRef skipScene"
    by (simp add: skipScene_def startGame_def initializeScene_def)
  have "\<exists>ob \<in> set (obstacles jumpScene).
      \<bar>vx (position (updatePlayerMovement stillPlayer (box 0 1.8 0))) - vx (position ob)\<bar> < 1.5 \<and>
      \<bar>vz (position (updatePlayerMovement stillPlayer (box 0 1.8 0))) -
          (vz (position ob) - logicSpeedRef jumpScene)\<bar> < 1.5 \<and>
      vy (position (updatePlayerMovement stillPlayer (box 0 1.8 0))) < 2"
    using h c by simp
  then show ?thesis
    using h g skipped_obstacle_undeclared [of jumpScene "box 0 1.8 0" stillPlayer] by blast
qed

section \<open>The frame that removes an obstacle\<close>







end
